theory Spec2Isabelle
  imports Main "HOL-Library.Word"
begin

unbundle bit_operations_syntax

section \<open>Data model of net/mptcp/mptcp\_sched.c\<close>

type_synonym u8 = "8 word"
type_synonym u16 = "16 word"
type_synonym u32 = "32 word"

text \<open>The congestion-avoidance states of \<open>icsk_ca_state\<close>.\<close>

datatype tcp_ca_state =
  TCP_CA_Open | TCP_CA_Disorder | TCP_CA_CWR | TCP_CA_Recovery | TCP_CA_Loss

text \<open>
  \<open>struct sk_buff\<close> with the fields of its control block that the scheduler reads:
  \<open>TCP_SKB_CB(skb)->seq\<close>, \<open>skb->len\<close>, \<open>TCP_SKB_CB(skb)->path_mask\<close> and what
  \<open>mptcp_is_data_fin(skb)\<close> answers. A possibly-NULL \<open>skb\<close> pointer is an option.
\<close>

record sk_buff =
  seq :: u32
  len :: u32
  path_mask :: u32
  is_data_fin :: bool

text \<open>
  A subflow: \<open>struct sock\<close> / \<open>struct tcp_sock\<close> / \<open>struct mptcp_tcp_sock\<close> of one
  sub-socket. Fields the file reads through a kernel accessor hold what that accessor
  returns for the socket: \<open>sk_can_send\<close> is \<open>mptcp_sk_can_send(sk)\<close>, \<open>is_reno\<close> is
  \<open>tcp_is_reno(tp)\<close>, \<open>packets_in_flight\<close> is \<open>tcp_packets_in_flight(tp)\<close>,
  \<open>current_mss\<close> is \<open>tcp_current_mss(sk)\<close>, \<open>wnd_end\<close> is \<open>tcp_wnd_end(tp)\<close>.
  \<open>last_rbuf_opti\<close> is the default scheduler's private area (\<open>struct defsched_priv\<close>).
\<close>

record tcp_sock =
  sk_can_send :: bool
  pre_established :: bool
  pf :: bool
  icsk_ca_state :: tcp_ca_state
  is_reno :: bool
  snd_una :: u32
  high_seq :: u32
  fully_established :: bool
  second_packet :: bool
  last_end_data_seq :: u32
  packets_in_flight :: u32
  snd_cwnd :: u32
  snd_ssthresh :: u32
  current_mss :: u32
  write_seq :: u32
  snd_nxt :: u32
  wnd_end :: u32
  path_index :: u8
  rcv_low_prio :: bool
  low_prio :: bool
  srtt_us :: u32
  sk_gso_max_segs :: u16
  last_rbuf_opti :: u32

text \<open>
  Kernel helpers that the file calls and that are declared elsewhere in the tree are
  parameters of the model: the sequence comparison \<open>before\<close> (\<open>after(a, b)\<close> is the
  kernel's macro for \<open>before(b, a)\<close>), \<open>mptcp_pi_to_flag\<close>, \<open>usecs_to_jiffies\<close>
  (an \<open>unsigned long\<close>, read as a natural number), \<open>tcp_cwnd_test\<close> on a subflow and
  \<open>tcp_snd_wnd_test\<close> on the meta socket.
\<close>

record kernel =
  before :: "u32 \<Rightarrow> u32 \<Rightarrow> bool"
  mptcp_pi_to_flag :: "u8 \<Rightarrow> u32"
  usecs_to_jiffies :: "u32 \<Rightarrow> nat"
  tcp_cwnd_test :: "tcp_sock \<Rightarrow> sk_buff \<Rightarrow> u32"
  tcp_snd_wnd_test :: "sk_buff \<Rightarrow> u32 \<Rightarrow> bool"

definition after :: "kernel \<Rightarrow> u32 \<Rightarrow> u32 \<Rightarrow> bool" where
  "after k seq2 seq1 = before k seq1 seq2"

text \<open>
  The meta socket with its \<open>struct mptcp_cb\<close>. The subflow list is the store of the
  sub-sockets: a \<open>struct sock *\<close> of a subflow is its position in \<open>subflows\<close>, in the
  order in which \<open>mptcp_for_each_sub\<close> walks them, and NULL is \<open>None\<close>. The three queue
  heads are what \<open>tcp_rtx_queue_head\<close>, \<open>tcp_send_head\<close> and \<open>skb_peek\<close> on the reinject
  queue return; \<open>stream_memory_free\<close> is \<open>sk_stream_memory_free(meta_sk)\<close>, \<open>jiffies32\<close>
  is \<open>tcp_jiffies32\<close>.
\<close>

record mptcp_cb =
  subflows :: "tcp_sock list"
  dfin_path_index :: u8
  rcv_shutdown :: bool
  rtx_queue_head :: "sk_buff option"
  send_head :: "sk_buff option"
  reinject_queue_head :: "sk_buff option"
  infinite_mapping_snd :: bool
  send_infinite_mapping :: bool
  has_sk_socket :: bool
  sock_nospace :: bool
  stream_wspace :: int
  stream_min_wspace :: int
  stream_memory_free :: bool
  jiffies32 :: u32

section \<open>Availability predicates\<close>

definition mptcp_is_def_unavailable :: "tcp_sock \<Rightarrow> bool" where
  "mptcp_is_def_unavailable tp =
     (if \<not> sk_can_send tp then True
      else if pre_established tp then True
      else if pf tp then True
      else False)"

text \<open>
  The last test of \<open>mptcp_is_temp_unavailable\<close> (the send window at the per-subflow
  level, for the first MSS of the segment), as its own definition.
\<close>

definition snd_wnd_bypassed :: "kernel \<Rightarrow> tcp_sock \<Rightarrow> sk_buff option \<Rightarrow> bool \<Rightarrow> bool" where
  "snd_wnd_bypassed k tp skb zero_wnd_test =
     (case skb of
        None \<Rightarrow> False
      | Some s \<Rightarrow> zero_wnd_test \<and>
          after k (write_seq tp + min (len s) (current_mss tp)) (wnd_end tp))"

definition mptcp_is_temp_unavailable ::
  "kernel \<Rightarrow> tcp_sock \<Rightarrow> sk_buff option \<Rightarrow> bool \<Rightarrow> bool" where
  "mptcp_is_temp_unavailable k tp skb zero_wnd_test =
     (if icsk_ca_state tp = TCP_CA_Loss \<and> (\<not> is_reno tp \<or> snd_una tp \<noteq> high_seq tp)
      then True
      else if \<not> fully_established tp \<and>
              (case skb of None \<Rightarrow> False
               | Some s \<Rightarrow> second_packet tp \<and> last_end_data_seq tp \<noteq> seq s)
      then True
      else if packets_in_flight tp \<ge> snd_cwnd tp then True
      else if write_seq tp - snd_nxt tp
                \<ge> (snd_cwnd tp - packets_in_flight tp) * current_mss tp
      then True
      else if zero_wnd_test \<and> \<not> before k (write_seq tp) (wnd_end tp) then True
      else if snd_wnd_bypassed k tp skb zero_wnd_test then True
      else False)"

definition mptcp_is_available :: "kernel \<Rightarrow> tcp_sock \<Rightarrow> sk_buff option \<Rightarrow> bool \<Rightarrow> bool" where
  "mptcp_is_available k tp skb zero_wnd_test =
     (\<not> mptcp_is_def_unavailable tp \<and> \<not> mptcp_is_temp_unavailable k tp skb zero_wnd_test)"

definition mptcp_dont_reinject_skb :: "kernel \<Rightarrow> tcp_sock \<Rightarrow> sk_buff option \<Rightarrow> bool" where
  "mptcp_dont_reinject_skb k tp skb =
     (case skb of
        None \<Rightarrow> False
      | Some s \<Rightarrow> mptcp_pi_to_flag k (path_index tp) AND path_mask s \<noteq> 0)"

definition subflow_is_backup :: "tcp_sock \<Rightarrow> bool" where
  "subflow_is_backup tp = (rcv_low_prio tp \<or> low_prio tp)"

definition subflow_is_active :: "tcp_sock \<Rightarrow> bool" where
  "subflow_is_active tp = (\<not> rcv_low_prio tp \<and> \<not> low_prio tp)"

section \<open>The subflow selector\<close>

text \<open>The local variables of \<open>get_subflow_from_selectors\<close> that live across iterations.\<close>

record sel_state =
  bestsk :: "nat option"
  min_srtt :: u32
  found_unused :: bool
  found_unused_una :: bool

text \<open>One iteration of the \<open>mptcp_for_each_sub\<close> loop, on the subflow at position \<open>j\<close>.\<close>

definition selectors_body ::
  "kernel \<Rightarrow> tcp_sock list \<Rightarrow> sk_buff option \<Rightarrow> (tcp_sock \<Rightarrow> bool) \<Rightarrow> bool \<Rightarrow>
   nat \<Rightarrow> sel_state \<Rightarrow> sel_state" where
  "selectors_body k subs skb selector zero_wnd_test j st =
     (let tp = subs ! j in
      if \<not> selector tp then st
      else
        let unused = \<not> mptcp_dont_reinject_skb k tp skb in
        if \<not> unused \<and> found_unused st then st
        else if mptcp_is_def_unavailable tp then st
        else if mptcp_is_temp_unavailable k tp skb zero_wnd_test
        then (if unused then st\<lparr>found_unused_una := True\<rparr> else st)
        else
          let st1 = (if unused
                     then (if \<not> found_unused st
                           then st\<lparr>min_srtt := 0xffffffff, bestsk := None\<rparr>
                           else st)\<lparr>found_unused := True\<rparr>
                     else st)
          in if srtt_us tp < min_srtt st1
             then st1\<lparr>min_srtt := srtt_us tp, bestsk := Some j\<rparr>
             else st1)"

fun selectors_loop ::
  "kernel \<Rightarrow> tcp_sock list \<Rightarrow> sk_buff option \<Rightarrow> (tcp_sock \<Rightarrow> bool) \<Rightarrow> bool \<Rightarrow>
   nat list \<Rightarrow> sel_state \<Rightarrow> sel_state" where
  "selectors_loop k subs skb selector zero_wnd_test [] st = st"
| "selectors_loop k subs skb selector zero_wnd_test (j # js) st =
     selectors_loop k subs skb selector zero_wnd_test js
       (selectors_body k subs skb selector zero_wnd_test j st)"

definition sel_init :: sel_state where
  "sel_init = \<lparr>bestsk = None, min_srtt = 0xffffffff,
                found_unused = False, found_unused_una = False\<rparr>"

text \<open>Returns the chosen subflow and the value left in \<open>*force\<close>.\<close>

definition get_subflow_from_selectors ::
  "kernel \<Rightarrow> tcp_sock list \<Rightarrow> sk_buff option \<Rightarrow> (tcp_sock \<Rightarrow> bool) \<Rightarrow> bool \<Rightarrow>
   nat option \<times> bool" where
  "get_subflow_from_selectors k subs skb selector zero_wnd_test =
     (let st = selectors_loop k subs skb selector zero_wnd_test [0..<length subs] sel_init
      in case bestsk st of
           Some b \<Rightarrow> (Some b, found_unused st)
         | None \<Rightarrow> (None, found_unused_una st))"

text \<open>The data-fin walk of \<open>get_available_subflow\<close>: the first subflow on the
  data-fin's path that is available, if any.\<close>

fun dfin_walk ::
  "kernel \<Rightarrow> tcp_sock list \<Rightarrow> u8 \<Rightarrow> sk_buff option \<Rightarrow> bool \<Rightarrow> nat list \<Rightarrow> nat option" where
  "dfin_walk k subs dfin skb zero_wnd_test [] = None"
| "dfin_walk k subs dfin skb zero_wnd_test (j # js) =
     (if path_index (subs ! j) = dfin \<and> mptcp_is_available k (subs ! j) skb zero_wnd_test
      then Some j
      else dfin_walk k subs dfin skb zero_wnd_test js)"

definition clear_path_mask :: "sk_buff option \<Rightarrow> sk_buff option" where
  "clear_path_mask skb = map_option (\<lambda>s. s\<lparr>path_mask := 0\<rparr>) skb"

text \<open>
  The code from the label \<open>restart\<close> on, with the local \<open>looping\<close> as an argument.
  The result is the returned subflow and the segment as the call leaves it (its
  \<open>path_mask\<close> may have been cleared).
\<close>

function find_best_subflow ::
  "kernel \<Rightarrow> tcp_sock list \<Rightarrow> sk_buff option \<Rightarrow> bool \<Rightarrow> bool \<Rightarrow> nat option \<times> sk_buff option" where
  "find_best_subflow k subs skb zero_wnd_test looping =
     (case get_subflow_from_selectors k subs skb subflow_is_active zero_wnd_test of
        (sk, force) \<Rightarrow>
          if force then (sk, skb)
          else
            (case get_subflow_from_selectors k subs skb subflow_is_backup zero_wnd_test of
               (sk2, force2) \<Rightarrow>
                 if \<not> force2 \<and> skb \<noteq> None
                 then (if \<not> looping
                       then find_best_subflow k subs (clear_path_mask skb) zero_wnd_test True
                       else (sk2, clear_path_mask skb))
                 else (sk2, skb)))"
  by pat_completeness auto
termination
  by (relation "measure (\<lambda>(k, subs, skb, z, looping). if looping then 0 else 1)") auto

declare find_best_subflow.simps [simp del]

definition get_available_subflow ::
  "kernel \<Rightarrow> mptcp_cb \<Rightarrow> sk_buff option \<Rightarrow> bool \<Rightarrow> nat option \<times> sk_buff option" where
  "get_available_subflow k m skb zero_wnd_test =
     (case (if rcv_shutdown m \<and> (case skb of None \<Rightarrow> False | Some s \<Rightarrow> is_data_fin s)
            then dfin_walk k (subflows m) (dfin_path_index m) skb zero_wnd_test
                   [0..<length (subflows m)]
            else None) of
        Some j \<Rightarrow> (Some j, skb)
      | None \<Rightarrow> find_best_subflow k (subflows m) skb zero_wnd_test False)"

section \<open>The selector with a record of its passes\<close>

text \<open>
  The same code with two ghost results: the passes of the selector loop, each with
  its classifier and the positions its loop body ran on, in order, and the number
  of times the jump to \<open>restart\<close> was taken. The data-fin walk is not a selector
  pass and is not recorded.
\<close>

datatype pass_kind = Pass_active | Pass_backup

definition pass_selector :: "pass_kind \<Rightarrow> tcp_sock \<Rightarrow> bool" where
  "pass_selector p = (case p of Pass_active \<Rightarrow> subflow_is_active | Pass_backup \<Rightarrow> subflow_is_backup)"

fun selectors_loop_traced ::
  "kernel \<Rightarrow> tcp_sock list \<Rightarrow> sk_buff option \<Rightarrow> (tcp_sock \<Rightarrow> bool) \<Rightarrow> bool \<Rightarrow>
   nat list \<Rightarrow> sel_state \<times> nat list \<Rightarrow> sel_state \<times> nat list" where
  "selectors_loop_traced k subs skb selector zero_wnd_test [] sv = sv"
| "selectors_loop_traced k subs skb selector zero_wnd_test (j # js) sv =
     selectors_loop_traced k subs skb selector zero_wnd_test js
       (selectors_body k subs skb selector zero_wnd_test j (fst sv), snd sv @ [j])"

definition get_subflow_from_selectors_traced ::
  "kernel \<Rightarrow> tcp_sock list \<Rightarrow> sk_buff option \<Rightarrow> (tcp_sock \<Rightarrow> bool) \<Rightarrow> bool \<Rightarrow>
   (nat option \<times> bool) \<times> nat list" where
  "get_subflow_from_selectors_traced k subs skb selector zero_wnd_test =
     (case selectors_loop_traced k subs skb selector zero_wnd_test [0..<length subs]
             (sel_init, []) of
        (st, visited) \<Rightarrow>
          ((case bestsk st of
              Some b \<Rightarrow> (Some b, found_unused st)
            | None \<Rightarrow> (None, found_unused_una st)), visited))"

function find_best_subflow_traced ::
  "kernel \<Rightarrow> tcp_sock list \<Rightarrow> sk_buff option \<Rightarrow> bool \<Rightarrow> bool \<Rightarrow>
   (nat option \<times> sk_buff option) \<times> (pass_kind \<times> nat list) list \<times> nat" where
  "find_best_subflow_traced k subs skb zero_wnd_test looping =
     (case get_subflow_from_selectors_traced k subs skb subflow_is_active zero_wnd_test of
        ((sk, force), v1) \<Rightarrow>
          if force then ((sk, skb), [(Pass_active, v1)], 0)
          else
            (case get_subflow_from_selectors_traced k subs skb subflow_is_backup zero_wnd_test of
               ((sk2, force2), v2) \<Rightarrow>
                 if \<not> force2 \<and> skb \<noteq> None
                 then (if \<not> looping
                       then (case find_best_subflow_traced k subs (clear_path_mask skb)
                                    zero_wnd_test True of
                               (r, passes, restarts) \<Rightarrow>
                                 (r, [(Pass_active, v1), (Pass_backup, v2)] @ passes,
                                  Suc restarts))
                       else ((sk2, clear_path_mask skb),
                             [(Pass_active, v1), (Pass_backup, v2)], 0))
                 else ((sk2, skb), [(Pass_active, v1), (Pass_backup, v2)], 0)))"
  by pat_completeness auto
termination
  by (relation "measure (\<lambda>(k, subs, skb, z, looping). if looping then 0 else 1)") auto

declare find_best_subflow_traced.simps [simp del]

definition get_available_subflow_traced ::
  "kernel \<Rightarrow> mptcp_cb \<Rightarrow> sk_buff option \<Rightarrow> bool \<Rightarrow>
   (nat option \<times> sk_buff option) \<times> (pass_kind \<times> nat list) list \<times> nat" where
  "get_available_subflow_traced k m skb zero_wnd_test =
     (case (if rcv_shutdown m \<and> (case skb of None \<Rightarrow> False | Some s \<Rightarrow> is_data_fin s)
            then dfin_walk k (subflows m) (dfin_path_index m) skb zero_wnd_test
                   [0..<length (subflows m)]
            else None) of
        Some j \<Rightarrow> ((Some j, skb), [], 0)
      | None \<Rightarrow> find_best_subflow_traced k (subflows m) skb zero_wnd_test False)"

section \<open>The receive-buffer optimisation\<close>

text \<open>
  One iteration of the loop that halves the congestion window of the slow flows, on
  the subflow at position \<open>j\<close>; \<open>i\<close> is the subflow \<open>sk\<close> the function was called on.
  The loop writes into the subflow store: \<open>snd_cwnd\<close> and \<open>snd_ssthresh\<close> of the
  subflow at \<open>j\<close>, \<open>last_rbuf_opti\<close> of the subflow at \<open>i\<close>.
\<close>

definition penalize_body ::
  "kernel \<Rightarrow> nat \<Rightarrow> sk_buff \<Rightarrow> u32 \<Rightarrow> nat \<Rightarrow> tcp_sock list \<Rightarrow> tcp_sock list" where
  "penalize_body k i skb_head now j subs =
     (let tp = subs ! i; tp_it = subs ! j in
      if j \<noteq> i \<and> path_mask skb_head AND mptcp_pi_to_flag k (path_index tp_it) \<noteq> 0
      then
        if srtt_us tp < srtt_us tp_it \<and> icsk_ca_state tp_it = TCP_CA_Open
        then
          let prior_cwnd = snd_cwnd tp_it;
              tp_it1 = tp_it\<lparr>snd_cwnd := max (drop_bit 1 (snd_cwnd tp_it)) 1\<rparr>;
              tp_it2 = (if prior_cwnd \<ge> snd_ssthresh tp_it1
                        then tp_it1\<lparr>snd_ssthresh := max (drop_bit 1 (snd_ssthresh tp_it1)) 2\<rparr>
                        else tp_it1);
              subs1 = subs[j := tp_it2]
          in subs1[i := (subs1 ! i)\<lparr>last_rbuf_opti := now\<rparr>]
        else subs
      else subs)"

fun penalize_loop ::
  "kernel \<Rightarrow> nat \<Rightarrow> sk_buff \<Rightarrow> u32 \<Rightarrow> nat list \<Rightarrow> tcp_sock list \<Rightarrow> tcp_sock list" where
  "penalize_loop k i skb_head now [] subs = subs"
| "penalize_loop k i skb_head now (j # js) subs =
     penalize_loop k i skb_head now js (penalize_body k i skb_head now j subs)"

text \<open>The loop that decides \<open>do_retrans\<close>; a \<open>break\<close> ends the recursion.\<close>

fun retrans_scan ::
  "kernel \<Rightarrow> tcp_sock list \<Rightarrow> nat \<Rightarrow> sk_buff \<Rightarrow> nat list \<Rightarrow> bool \<Rightarrow> bool" where
  "retrans_scan k subs i skb_head [] do_retrans = do_retrans"
| "retrans_scan k subs i skb_head (j # js) do_retrans =
     (if j \<noteq> i \<and> path_mask skb_head AND mptcp_pi_to_flag k (path_index (subs ! j)) \<noteq> 0
      then
        if snd_cwnd (subs ! j) \<le> 4 then True
        else if 4 * srtt_us (subs ! i) \<ge> srtt_us (subs ! j) then False
        else retrans_scan k subs i skb_head js True
      else retrans_scan k subs i skb_head js do_retrans)"

text \<open>The two tests that jump to the label \<open>retrans\<close>, past the penalisation loop.\<close>

definition penalization_optional :: "mptcp_cb \<Rightarrow> bool \<Rightarrow> bool" where
  "penalization_optional m penal = (\<not> penal \<and> stream_memory_free m)"

definition penalized_recently :: "kernel \<Rightarrow> mptcp_cb \<Rightarrow> nat \<Rightarrow> bool" where
  "penalized_recently k m i =
     (unat (jiffies32 m - last_rbuf_opti (subflows m ! i))
        < usecs_to_jiffies k (drop_bit 3 (srtt_us (subflows m ! i))))"

text \<open>The code from the label \<open>retrans\<close> on, in the subflow store \<open>subs\<close>.\<close>

definition retrans_decision :: "kernel \<Rightarrow> tcp_sock list \<Rightarrow> nat \<Rightarrow> sk_buff \<Rightarrow> sk_buff option" where
  "retrans_decision k subs i skb_head =
     (if path_mask skb_head AND mptcp_pi_to_flag k (path_index (subs ! i)) = 0
      then
        if retrans_scan k subs i skb_head [0..<length subs] False
           \<and> mptcp_is_available k (subs ! i) (Some skb_head) False
        then Some skb_head
        else None
      else None)"

text \<open>
  \<open>mptcp_rcv_buf_optimization(sk, penal)\<close> on the subflow at position \<open>i\<close>: the returned
  segment and the connection with the subflow store as the call leaves it.
\<close>

definition mptcp_rcv_buf_optimization ::
  "kernel \<Rightarrow> mptcp_cb \<Rightarrow> nat \<Rightarrow> bool \<Rightarrow> sk_buff option \<times> mptcp_cb" where
  "mptcp_rcv_buf_optimization k m i penal =
     (case rtx_queue_head m of
        None \<Rightarrow> (None, m)
      | Some skb_head \<Rightarrow>
          let subs = (if penalization_optional m penal then subflows m
                      else if penalized_recently k m i then subflows m
                      else penalize_loop k i skb_head (jiffies32 m)
                             [0..<length (subflows m)] (subflows m))
          in (retrans_decision k subs i skb_head, m\<lparr>subflows := subs\<rparr>))"

section \<open>The segment chooser\<close>

text \<open>
  \<open>__mptcp_next_segment\<close>: the segment, the value left in \<open>*reinject\<close>, and the
  connection. The scheduler hook \<open>mpcb->sched_ops->get_subflow\<close> is the one of
  \<open>mptcp_sched_default\<close>, \<open>get_available_subflow\<close>. The chrono markers are not modelled.
\<close>

definition mptcp_next_segment_inner ::
  "kernel \<Rightarrow> mptcp_cb \<Rightarrow> sk_buff option \<times> int \<times> mptcp_cb" where
  "mptcp_next_segment_inner k m =
     (if infinite_mapping_snd m \<or> send_infinite_mapping m then (send_head m, 0, m)
      else
        case reinject_queue_head m of
          Some s \<Rightarrow> (Some s, 1, m)
        | None \<Rightarrow>
            (case send_head m of
               Some s \<Rightarrow> (Some s, 0, m)
             | None \<Rightarrow>
                 if has_sk_socket m \<and> sock_nospace m \<and> stream_wspace m < stream_min_wspace m
                 then
                   (case fst (get_available_subflow k m None False) of
                      None \<Rightarrow> (None, 0, m)
                    | Some subsk \<Rightarrow>
                        (case mptcp_rcv_buf_optimization k m subsk False of
                           (Some s, m') \<Rightarrow> (Some s, - 1, m')
                         | (None, m') \<Rightarrow> (None, 0, m')))
                 else (None, 0, m)))"

text \<open>
  The size computation at the end of \<open>mptcp_next_segment\<close>: \<open>None\<close> when the function
  returns NULL there, otherwise the value stored in \<open>*limit\<close>.
\<close>

definition next_segment_limit :: "kernel \<Rightarrow> tcp_sock \<Rightarrow> sk_buff \<Rightarrow> u32 \<Rightarrow> u32 option" where
  "next_segment_limit k subtp skb mss_now =
     (if len skb \<le> mss_now then Some 0
      else
        let gso_max_segs = (if sk_gso_max_segs subtp = 0 then 1 else sk_gso_max_segs subtp);
            max_segs = min (tcp_cwnd_test k subtp skb) (ucast gso_max_segs)
        in if max_segs = 0 then None
           else
             let max_len = min (mss_now * max_segs) (len skb);
                 in_flight_space = (snd_cwnd subtp - packets_in_flight subtp) * mss_now;
                 remaining_in_flight_space =
                   in_flight_space - (write_seq subtp - snd_nxt subtp);
                 max_len1 = (if sint remaining_in_flight_space \<le> 0 then max_len
                             else min max_len remaining_in_flight_space);
                 window = wnd_end subtp - write_seq subtp
             in Some (min max_len1 window))"

text \<open>
  What \<open>mptcp_next_segment\<close> hands back: the returned segment, \<open>*reinject\<close>,
  \<open>*subsk\<close> (\<open>None\<close> when NULL or not written), \<open>*limit\<close>, and the subflow store.
  The returned segment carries its \<open>path_mask\<close> as \<open>get_available_subflow\<close> left it.
  After that call the only queue head read again is the retransmit-queue head, and
  only for a segment that came from the send head, so the cleared mask is never read
  through a queue.
\<close>

record next_seg =
  ns_skb :: "sk_buff option"
  ns_reinject :: int
  ns_subsk :: "nat option"
  ns_limit :: u32
  ns_subflows :: "tcp_sock list"

definition mptcp_next_segment :: "kernel \<Rightarrow> mptcp_cb \<Rightarrow> next_seg" where
  "mptcp_next_segment k m =
     (case mptcp_next_segment_inner k m of
        (None, reinject, m1) \<Rightarrow>
          \<lparr>ns_skb = None, ns_reinject = reinject, ns_subsk = None, ns_limit = 0,
           ns_subflows = subflows m1\<rparr>
      | (Some skb0, reinject, m1) \<Rightarrow>
          (case get_available_subflow k m1 (Some skb0) False of
             (None, skb_after) \<Rightarrow>
               \<lparr>ns_skb = None, ns_reinject = reinject, ns_subsk = None, ns_limit = 0,
                ns_subflows = subflows m1\<rparr>
           | (Some subsk, skb_after) \<Rightarrow>
               let skb = (case skb_after of Some s \<Rightarrow> s | None \<Rightarrow> skb0);
                   mss_now = current_mss (subflows m1 ! subsk)
               in
               (case (if reinject = 0 \<and> \<not> tcp_snd_wnd_test k skb mss_now
                      then (case mptcp_rcv_buf_optimization k m1 subsk True of
                              (Some h, m2) \<Rightarrow> (Some h, - 1, m2)
                            | (None, m2) \<Rightarrow> (None, reinject, m2))
                      else (Some skb, reinject, m1)) of
                  (None, reinject2, m2) \<Rightarrow>
                    \<lparr>ns_skb = None, ns_reinject = reinject2, ns_subsk = Some subsk,
                     ns_limit = 0, ns_subflows = subflows m2\<rparr>
                | (Some skb2, reinject2, m2) \<Rightarrow>
                    (case next_segment_limit k (subflows m2 ! subsk) skb2 mss_now of
                       None \<Rightarrow>
                         \<lparr>ns_skb = None, ns_reinject = reinject2, ns_subsk = Some subsk,
                          ns_limit = 0, ns_subflows = subflows m2\<rparr>
                     | Some limit \<Rightarrow>
                         \<lparr>ns_skb = Some skb2, ns_reinject = reinject2,
                          ns_subsk = Some subsk, ns_limit = limit,
                          ns_subflows = subflows m2\<rparr>))))"

section \<open>The scheduler registry\<close>

datatype errno = EINVAL | EEXIST | ENOENT | EPERM

text \<open>
  \<open>struct mptcp_sched_ops\<close>: the function pointers are addresses, NULL is \<open>None\<close>.
  The registry \<open>mptcp_sched_list\<close> is the list of its entries, head first.
\<close>

record mptcp_sched_ops =
  name :: string
  get_subflow :: "nat option"
  next_segment :: "nat option"

definition mptcp_sched_find :: "string \<Rightarrow> mptcp_sched_ops list \<Rightarrow> mptcp_sched_ops option" where
  "mptcp_sched_find nm lst = find (\<lambda>e. name e = nm) lst"

text \<open>The returned status (\<open>Inr ()\<close> is 0) and the registry after the call.\<close>

definition mptcp_register_scheduler ::
  "mptcp_sched_ops \<Rightarrow> mptcp_sched_ops list \<Rightarrow> (errno + unit) \<times> mptcp_sched_ops list" where
  "mptcp_register_scheduler sched lst =
     (if get_subflow sched = None \<or> next_segment sched = None then (Inl EINVAL, lst)
      else
        case mptcp_sched_find (name sched) lst of
          Some e \<Rightarrow> (Inl EEXIST, lst)
        | None \<Rightarrow> (Inr (), lst @ [sched]))"

text \<open>
  What the registry code asks of its surroundings: whether the kernel is built with
  \<open>CONFIG_MODULES\<close>, what \<open>capable(CAP_NET_ADMIN)\<close> and
  \<open>ns_capable(sock_net(sk)->user_ns, CAP_NET_ADMIN)\<close> answer for the caller, and what
  \<open>request_module\<close> of a module name does to the registry.
\<close>

record sched_env =
  config_modules :: bool
  capable_net_admin :: bool
  ns_capable_net_admin :: bool
  request_module :: "string \<Rightarrow> mptcp_sched_ops list \<Rightarrow> mptcp_sched_ops list"

definition mptcp_sched_find_autoload ::
  "sched_env \<Rightarrow> string \<Rightarrow> mptcp_sched_ops list \<Rightarrow>
   mptcp_sched_ops option \<times> mptcp_sched_ops list" where
  "mptcp_sched_find_autoload env nm lst =
     (case mptcp_sched_find nm lst of
        Some e \<Rightarrow> (Some e, lst)
      | None \<Rightarrow>
          if config_modules env \<and> capable_net_admin env
          then (let lst' = request_module env (''mptcp_'' @ nm) lst
                in (mptcp_sched_find nm lst', lst'))
          else (None, lst))"

text \<open>The two fields of the meta \<open>tcp_sock\<close> that \<open>mptcp_set_scheduler\<close> writes.\<close>

record sched_choice =
  mptcp_sched_name :: string
  mptcp_sched_setsockopt :: bool

definition mptcp_set_scheduler ::
  "sched_env \<Rightarrow> sched_choice \<Rightarrow> string \<Rightarrow> mptcp_sched_ops list \<Rightarrow>
   (errno + unit) \<times> sched_choice \<times> mptcp_sched_ops list" where
  "mptcp_set_scheduler env sk nm lst =
     (case mptcp_sched_find_autoload env nm lst of
        (None, lst') \<Rightarrow> (Inl ENOENT, sk, lst')
      | (Some e, lst') \<Rightarrow>
          if \<not> ns_capable_net_admin env then (Inl EPERM, sk, lst')
          else (Inr (), sk\<lparr>mptcp_sched_name := nm, mptcp_sched_setsockopt := True\<rparr>, lst'))"

section \<open>Predicates of the statements\<close>

text \<open>
  A subflow at position \<open>j\<close> is a candidate of a selector pass with unused-status
  \<open>unused\<close> when the pass's classifier accepts it, the segment has (not) been sent on
  it as \<open>unused\<close> says, and it is neither definitively nor temporarily unavailable.
\<close>

definition sel_candidate ::
  "kernel \<Rightarrow> tcp_sock list \<Rightarrow> sk_buff option \<Rightarrow> (tcp_sock \<Rightarrow> bool) \<Rightarrow> bool \<Rightarrow> bool \<Rightarrow> nat \<Rightarrow> bool" where
  "sel_candidate k subs skb selector zero_wnd_test unused j =
     (selector (subs ! j)
      \<and> (\<not> mptcp_dont_reinject_skb k (subs ! j) skb) = unused
      \<and> \<not> mptcp_is_def_unavailable (subs ! j)
      \<and> \<not> mptcp_is_temp_unavailable k (subs ! j) skb zero_wnd_test)"

text \<open>
  The invariant of the selector loop after the subflows at the positions \<open>A\<close>:
  \<open>found_unused\<close> says whether an unused candidate was met, \<open>min_srtt\<close> is a lower
  bound for the candidates of the current unused-status, and \<open>bestsk\<close> is one of them
  with that \<open>srtt_us\<close>, strictly below every such candidate met before it.
\<close>

definition sel_inv ::
  "kernel \<Rightarrow> tcp_sock list \<Rightarrow> sk_buff option \<Rightarrow> (tcp_sock \<Rightarrow> bool) \<Rightarrow> bool \<Rightarrow> nat set \<Rightarrow> sel_state \<Rightarrow> bool" where
  "sel_inv k subs skb selector z A st =
     ((found_unused st \<longleftrightarrow> (\<exists>j\<in>A. sel_candidate k subs skb selector z True j))
      \<and> (\<forall>j\<in>A. sel_candidate k subs skb selector z (found_unused st) j
             \<longrightarrow> min_srtt st \<le> srtt_us (subs ! j))
      \<and> (case bestsk st of
            None \<Rightarrow> True
          | Some b \<Rightarrow> b \<in> A \<and> sel_candidate k subs skb selector z (found_unused st) b
                     \<and> srtt_us (subs ! b) = min_srtt st
                     \<and> (\<forall>j\<in>A. j < b \<and> sel_candidate k subs skb selector z (found_unused st) j
                            \<longrightarrow> srtt_us (subs ! b) < srtt_us (subs ! j))))"

text \<open>
  A co-carrier of the retransmit-queue head is a subflow other than the one at \<open>i\<close>
  whose path flag is in the head's \<open>path_mask\<close>; it is penalised when it is slower than
  subflow \<open>i\<close> and in state \<open>TCP_CA_Open\<close>. \<open>halved\<close> is the effect of the penalisation
  on the co-carrier.
\<close>

definition co_carrier :: "kernel \<Rightarrow> tcp_sock list \<Rightarrow> nat \<Rightarrow> sk_buff \<Rightarrow> nat \<Rightarrow> bool" where
  "co_carrier k subs i skb_head j =
     (j \<noteq> i \<and> path_mask skb_head AND mptcp_pi_to_flag k (path_index (subs ! j)) \<noteq> 0)"

definition penalized :: "kernel \<Rightarrow> tcp_sock list \<Rightarrow> nat \<Rightarrow> sk_buff \<Rightarrow> nat \<Rightarrow> bool" where
  "penalized k subs i skb_head j =
     (co_carrier k subs i skb_head j
      \<and> srtt_us (subs ! i) < srtt_us (subs ! j) \<and> icsk_ca_state (subs ! j) = TCP_CA_Open)"

definition halved :: "tcp_sock \<Rightarrow> tcp_sock" where
  "halved tp =
     tp\<lparr>snd_cwnd := max (drop_bit 1 (snd_cwnd tp)) 1,
        snd_ssthresh := (if snd_cwnd tp \<ge> snd_ssthresh tp
                         then max (drop_bit 1 (snd_ssthresh tp)) 2 else snd_ssthresh tp)\<rparr>"

section \<open>Concrete scenarios\<close>

text \<open>
  One instance of the kernel helpers, and sockets, segments and registry entries for
  the concrete scenarios below: \<open>before\<close> is the wrap-around comparison of 32-bit
  sequence numbers, the path flag of index \<open>pi\<close> is \<open>1 << pi\<close>, a jiffy is a
  millisecond, the congestion window admits up to half of itself at once, and the
  meta-level send window always has room.
\<close>

definition ex_kernel :: kernel where
  "ex_kernel = \<lparr>before = (\<lambda>a b. sint (a - b) < 0),
                 mptcp_pi_to_flag = (\<lambda>pi. push_bit (unat pi) 1),
                 usecs_to_jiffies = (\<lambda>u. (unat u + 999) div 1000),
                 tcp_cwnd_test = (\<lambda>tp skb.
                    if packets_in_flight tp \<ge> snd_cwnd tp then 0
                    else min (max (drop_bit 1 (snd_cwnd tp)) 1)
                             (snd_cwnd tp - packets_in_flight tp)),
                 tcp_snd_wnd_test = (\<lambda>skb mss. True)\<rparr>"

definition ex_sub :: tcp_sock where
  "ex_sub = \<lparr>sk_can_send = True, pre_established = False, pf = False,
              icsk_ca_state = TCP_CA_Open, is_reno = True, snd_una = 0, high_seq = 0,
              fully_established = True, second_packet = False, last_end_data_seq = 0,
              packets_in_flight = 0, snd_cwnd = 10, snd_ssthresh = 20, current_mss = 1000,
              write_seq = 0, snd_nxt = 0, wnd_end = 65535, path_index = 1,
              rcv_low_prio = False, low_prio = False, srtt_us = 10000,
              sk_gso_max_segs = 0, last_rbuf_opti = 0\<rparr>"

definition ex_skb :: sk_buff where
  "ex_skb = \<lparr>seq = 100000, len = 500, path_mask = 0, is_data_fin = False\<rparr>"

definition ex_ops :: "string \<Rightarrow> mptcp_sched_ops" where
  "ex_ops nm = \<lparr>name = nm, get_subflow = Some 1, next_segment = Some 2\<rparr>"

definition ex_env :: "bool \<Rightarrow> sched_env" where
  "ex_env priv = \<lparr>config_modules = True, capable_net_admin = priv,
                   ns_capable_net_admin = priv,
                   request_module = (\<lambda>module lst.
                      if module = ''mptcp_redundant'' then lst @ [ex_ops ''redundant'']
                      else lst)\<rparr>"

definition ex_choice :: sched_choice where
  "ex_choice = \<lparr>mptcp_sched_name = ''default'', mptcp_sched_setsockopt = False\<rparr>"

definition ex_sub_B :: tcp_sock where
  "ex_sub_B = ex_sub\<lparr>path_index := 2, srtt_us := 20000, snd_ssthresh := 8\<rparr>"

definition ex_head :: sk_buff where
  "ex_head = \<lparr>seq = 0, len = 3000, path_mask = 4, is_data_fin = False\<rparr>"

definition ex_cb :: mptcp_cb where
  "ex_cb = \<lparr>subflows = [ex_sub, ex_sub_B], dfin_path_index = 0, rcv_shutdown = False,
            rtx_queue_head = Some ex_head, send_head = None, reinject_queue_head = None,
            infinite_mapping_snd = False, send_infinite_mapping = False,
            has_sk_socket = True, sock_nospace = False, stream_wspace = 0,
            stream_min_wspace = 0, stream_memory_free = True, jiffies32 = 100\<rparr>"

definition ex_seg :: sk_buff where
  "ex_seg = \<lparr>seq = 0, len = 3000, path_mask = 0, is_data_fin = False\<rparr>"

definition ex_cb_send :: mptcp_cb where
  "ex_cb_send = ex_cb\<lparr>subflows := [ex_sub], rtx_queue_head := None, send_head := Some ex_seg\<rparr>"

section \<open>Properties\<close>

text \<open>The equations that evaluate the concrete scenarios.\<close>

lemmas ex_eval =
  mptcp_next_segment_def mptcp_next_segment_inner_def get_available_subflow_def
  find_best_subflow.simps get_subflow_from_selectors_def selectors_body_def sel_init_def
  next_segment_limit_def clear_path_mask_def mptcp_is_available_def
  subflow_is_active_def subflow_is_backup_def mptcp_dont_reinject_skb_def
  mptcp_is_def_unavailable_def mptcp_is_temp_unavailable_def snd_wnd_bypassed_def Let_def
  ex_cb_send_def ex_cb_def ex_seg_def ex_kernel_def ex_sub_def ex_sub_B_def upt_rec


subsection \<open>Availability\<close>

text \<open>
  C1, as amended. The per-segment window test of \<open>mptcp_is_temp_unavailable\<close> holds
  exactly when \<open>zero_wnd_test\<close> is set, a segment \<open>K\<close> is present and
  \<open>write_seq + min(K.len, mss_now)\<close> of the subflow is \<open>after\<close> the subflow's window
  end: the comparison starts from the subflow's own \<open>write_seq\<close>, not from the
  segment's meta-level sequence number. With \<open>zero_wnd_test\<close> set, a segment adds to
  the temporary unavailability of a subflow only through the in-order test of a
  subflow that is not fully established and through this window test.
\<close>

theorem snd_wnd_bypassed_write_seq:
  "(snd_wnd_bypassed k S skb zero_wnd_test \<longleftrightarrow>
      zero_wnd_test \<and>
      (\<exists>K'. skb = Some K' \<and>
         after k (write_seq S + min (len K') (current_mss S)) (wnd_end S)))
   \<and> (mptcp_is_temp_unavailable k S (Some K) True \<longleftrightarrow>
        mptcp_is_temp_unavailable k S None True
        \<or> (\<not> fully_established S \<and> second_packet S \<and> last_end_data_seq S \<noteq> seq K)
        \<or> after k (write_seq S + min (len K) (current_mss S)) (wnd_end S))"
  by (auto simp: mptcp_is_temp_unavailable_def snd_wnd_bypassed_def split: option.splits)

text \<open>
  C1, as amended, on a subflow with \<open>write_seq = 0\<close>, an MSS of 1000 and a window end of
  400, for a segment of length 500: the window test fires.
\<close>

theorem snd_wnd_bypassed_write_seq_witness:
  "snd_wnd_bypassed ex_kernel (ex_sub\<lparr>wnd_end := 400\<rparr>) (Some ex_skb) True
   \<and> mptcp_is_temp_unavailable ex_kernel (ex_sub\<lparr>wnd_end := 400\<rparr>) (Some ex_skb) True
   \<and> \<not> mptcp_is_temp_unavailable ex_kernel (ex_sub\<lparr>wnd_end := 400\<rparr>) None True"
  using snd_wnd_bypassed_write_seq
          [of ex_kernel "ex_sub\<lparr>wnd_end := 400\<rparr>" "Some ex_skb" True ex_skb]
  by (simp add: ex_kernel_def ex_sub_def ex_skb_def after_def mptcp_is_temp_unavailable_def
        snd_wnd_bypassed_def)

text \<open>
  C1 as stated fails: a segment with meta-level sequence number 100000 and length 500
  on a subflow with \<open>write_seq = 0\<close>, an MSS of 1000 and a window end of 65535. The
  segment's own sequence number plus 500 is beyond the window end, in plain and in
  wrap-around comparison, yet the window test does not fire and the subflow is not
  temporarily unavailable.
\<close>

theorem snd_wnd_bypassed_seq_counterexample:
  "\<not> snd_wnd_bypassed ex_kernel ex_sub (Some ex_skb) True
   \<and> \<not> mptcp_is_temp_unavailable ex_kernel ex_sub (Some ex_skb) True
   \<and> unat (seq ex_skb) + min (unat (len ex_skb)) (unat (current_mss ex_sub)) > unat (wnd_end ex_sub)
   \<and> seq ex_skb + min (len ex_skb) (current_mss ex_sub) > wnd_end ex_sub
   \<and> after ex_kernel (seq ex_skb + min (len ex_skb) (current_mss ex_sub)) (wnd_end ex_sub)"
  by (simp add: snd_wnd_bypassed_def mptcp_is_temp_unavailable_def ex_kernel_def ex_sub_def ex_skb_def after_def)

subsection \<open>The selector loop\<close>

lemma sel_inv_init: "sel_inv k subs skb selector z {} sel_init"
  by (simp add: sel_inv_def sel_init_def)

lemma sel_inv_body:
  assumes "sel_inv k subs skb selector z A st" and "\<forall>a\<in>A. a < j"
  shows "sel_inv k subs skb selector z (insert j A) (selectors_body k subs skb selector z j st)"
proof (cases "sel_candidate k subs skb selector z True j \<or> sel_candidate k subs skb selector z False j")
  case False
  then have nc: "\<not> sel_candidate k subs skb selector z u j" for u
    by (cases u) auto
  have "selectors_body k subs skb selector z j st = st
        \<or> selectors_body k subs skb selector z j st = st\<lparr>found_unused_una := True\<rparr>"
    using False by (auto simp: selectors_body_def sel_candidate_def Let_def)
  then show ?thesis
    using assms nc by (auto simp: sel_inv_def split: option.splits)
next
  case True
  show ?thesis
  proof (cases "sel_candidate k subs skb selector z True j")
    case unused: True
    show ?thesis
    proof (cases "found_unused st")
      case True
      then show ?thesis
        using assms unused
        by (auto simp: sel_inv_def selectors_body_def sel_candidate_def Let_def
                 split: option.splits)
    next
      case False
      then show ?thesis
        using assms unused
        by (auto simp: sel_inv_def selectors_body_def sel_candidate_def Let_def
                 split: option.splits)
    qed
  next
    case False
    with True have used: "sel_candidate k subs skb selector z False j" by simp
    show ?thesis
    proof (cases "found_unused st")
      case True
      then show ?thesis
        using assms used
        by (auto simp: sel_inv_def selectors_body_def sel_candidate_def Let_def
                 split: option.splits)
    next
      case False
      then show ?thesis
        using assms used
        by (auto simp: sel_inv_def selectors_body_def sel_candidate_def Let_def
                 split: option.splits)
    qed
  qed
qed


lemma sel_inv_loop:
  "sel_inv k subs skb selector z A st \<Longrightarrow> sorted_wrt (<) js \<Longrightarrow> \<forall>a\<in>A. \<forall>j\<in>set js. a < j \<Longrightarrow>
   sel_inv k subs skb selector z (A \<union> set js) (selectors_loop k subs skb selector z js st)"
proof (induction js arbitrary: A st)
  case Nil
  then show ?case by simp
next
  case (Cons j js)
  have inv: "sel_inv k subs skb selector z (insert j A) (selectors_body k subs skb selector z j st)"
    using Cons.prems by (intro sel_inv_body) auto
  have below: "\<forall>a\<in>insert j A. \<forall>x\<in>set js. a < x"
    using Cons.prems by auto
  have srt: "sorted_wrt (<) js"
    using Cons.prems by simp
  show ?case
    using Cons.IH [OF inv srt below] by simp
qed

lemma selectors_result:
  assumes "get_subflow_from_selectors k subs skb selector z = (Some i, force)"
  shows "i < length subs \<and> sel_candidate k subs skb selector z force i
     \<and> (\<forall>j<length subs. sel_candidate k subs skb selector z force j
           \<longrightarrow> srtt_us (subs ! i) \<le> srtt_us (subs ! j))
     \<and> (\<forall>j<i. sel_candidate k subs skb selector z force j
           \<longrightarrow> srtt_us (subs ! i) < srtt_us (subs ! j))"
proof -
  define st where "st = selectors_loop k subs skb selector z [0..<length subs] sel_init"
  have inv: "sel_inv k subs skb selector z {0..<length subs} st"
    using sel_inv_loop [OF sel_inv_init, of "[0..<length subs]" k subs skb selector z]
    by (simp add: st_def)
  from assms have b: "bestsk st = Some i" and f: "force = found_unused st"
    by (auto simp: get_subflow_from_selectors_def st_def [symmetric] Let_def split: option.splits)
  have 1: "i \<in> {0..<length subs}"
    and 2: "sel_candidate k subs skb selector z force i"
    and 3: "srtt_us (subs ! i) = min_srtt st"
    and 4: "\<forall>j\<in>{0..<length subs}. sel_candidate k subs skb selector z force j
              \<longrightarrow> min_srtt st \<le> srtt_us (subs ! j)"
    and 5: "\<forall>j\<in>{0..<length subs}. j < i \<and> sel_candidate k subs skb selector z force j
              \<longrightarrow> srtt_us (subs ! i) < srtt_us (subs ! j)"
    using inv unfolding sel_inv_def b f option.case by blast+
  have 6: "j \<in> {0..<length subs}" if "j < i" for j
    using that 1 by simp
  show ?thesis
    using 1 2 3 4 5 6 by auto
qed

lemma dfin_walk_Some:
  "dfin_walk k subs dfin skb z js = Some i \<Longrightarrow>
     i \<in> set js \<and> path_index (subs ! i) = dfin \<and> mptcp_is_available k (subs ! i) skb z"
  by (induction js) (auto split: if_splits)

lemma find_best_subflow_Some:
  "fst (find_best_subflow k subs skb z looping) = Some i \<Longrightarrow>
     i < length subs \<and> \<not> mptcp_is_def_unavailable (subs ! i)"
proof (induction k subs skb z looping rule: find_best_subflow.induct)
  case (1 k subs skb z looping)
  obtain sk force where a: "get_subflow_from_selectors k subs skb subflow_is_active z = (sk, force)"
    by (cases "get_subflow_from_selectors k subs skb subflow_is_active z")
  obtain sk2 force2 where b: "get_subflow_from_selectors k subs skb subflow_is_backup z = (sk2, force2)"
    by (cases "get_subflow_from_selectors k subs skb subflow_is_backup z")
  have eq: "find_best_subflow k subs skb z looping =
     (if force then (sk, skb)
      else if \<not> force2 \<and> skb \<noteq> None
           then (if \<not> looping then find_best_subflow k subs (clear_path_mask skb) z True
                 else (sk2, clear_path_mask skb))
           else (sk2, skb))"
    by (subst find_best_subflow.simps) (simp add: a b)
  have act: "i < length subs \<and> \<not> mptcp_is_def_unavailable (subs ! i)" if "sk = Some i"
    using selectors_result [of k subs skb subflow_is_active z i force] a that
    by (simp add: sel_candidate_def)
  have bak: "i < length subs \<and> \<not> mptcp_is_def_unavailable (subs ! i)" if "sk2 = Some i"
    using selectors_result [of k subs skb subflow_is_backup z i force2] b that
    by (simp add: sel_candidate_def)
  show ?case
  proof (cases "\<not> force \<and> \<not> force2 \<and> skb \<noteq> None \<and> \<not> looping")
    case True
    then have "fst (find_best_subflow k subs (clear_path_mask skb) z True) = Some i"
      using "1.prems" eq by simp
    then show ?thesis
      using "1.IH" [OF a [symmetric] _ b [symmetric]] True by simp
  next
    case False
    then have "sk = Some i \<or> sk2 = Some i"
      using "1.prems" eq by (auto split: if_splits)
    then show ?thesis using act bak by blast
  qed
qed

lemma get_available_subflow_Some:
  "fst (get_available_subflow k m skb z) = Some i \<Longrightarrow>
     i < length (subflows m) \<and> \<not> mptcp_is_def_unavailable (subflows m ! i)"
  by (auto simp: get_available_subflow_def mptcp_is_available_def
           split: option.splits if_splits
           dest!: dfin_walk_Some find_best_subflow_Some)

text \<open>
  C5. When a selector pass returns a subflow \<open>S\<close>, \<open>S\<close> is itself a candidate, its
  unused-status is the returned \<open>force\<close>, and \<open>srtt_us(S) \<le> srtt_us(T)\<close> for every
  candidate \<open>T\<close> of the pass with the same unused-status (same classifier, neither
  definitively nor temporarily unavailable). Ties go to the first seen: every such
  candidate before \<open>S\<close> in iteration order has a strictly larger \<open>srtt_us\<close>.
\<close>

theorem selector_lowest_srtt_first_seen:
  assumes "get_subflow_from_selectors k subs skb selector z = (Some i, force)"
  shows "i < length subs \<and> sel_candidate k subs skb selector z force i
     \<and> (\<forall>j<length subs. sel_candidate k subs skb selector z force j
           \<longrightarrow> srtt_us (subs ! i) \<le> srtt_us (subs ! j))
     \<and> (\<forall>j<i. sel_candidate k subs skb selector z force j
           \<longrightarrow> srtt_us (subs ! i) < srtt_us (subs ! j))"
  using assms by (rule selectors_result)

text \<open>
  C5 on three active subflows with \<open>srtt_us\<close> 20000, 10000 and 10000 and a fresh
  segment: the second is returned, ahead of the third with the same \<open>srtt_us\<close>.
\<close>

theorem selector_lowest_srtt_first_seen_witness:
  "get_subflow_from_selectors ex_kernel [ex_sub_B, ex_sub, ex_sub\<lparr>path_index := 3\<rparr>]
      (Some ex_skb) subflow_is_active False = (Some 1, True)
   \<and> sel_candidate ex_kernel [ex_sub_B, ex_sub, ex_sub\<lparr>path_index := 3\<rparr>]
         (Some ex_skb) subflow_is_active False True 0
   \<and> sel_candidate ex_kernel [ex_sub_B, ex_sub, ex_sub\<lparr>path_index := 3\<rparr>]
         (Some ex_skb) subflow_is_active False True 2
   \<and> srtt_us ex_sub \<le> srtt_us (ex_sub\<lparr>path_index := 3\<rparr>)
   \<and> srtt_us ex_sub < srtt_us ex_sub_B"
proof -
  have e: "get_subflow_from_selectors ex_kernel [ex_sub_B, ex_sub, ex_sub\<lparr>path_index := 3\<rparr>]
      (Some ex_skb) subflow_is_active False = (Some 1, True)"
    by (simp add: get_subflow_from_selectors_def selectors_body_def sel_init_def Let_def
          subflow_is_active_def mptcp_dont_reinject_skb_def mptcp_is_def_unavailable_def
          mptcp_is_temp_unavailable_def snd_wnd_bypassed_def
          ex_kernel_def ex_sub_def ex_sub_B_def ex_skb_def upt_rec)
  have c: "sel_candidate ex_kernel [ex_sub_B, ex_sub, ex_sub\<lparr>path_index := 3\<rparr>]
         (Some ex_skb) subflow_is_active False True 0"
    "sel_candidate ex_kernel [ex_sub_B, ex_sub, ex_sub\<lparr>path_index := 3\<rparr>]
         (Some ex_skb) subflow_is_active False True 2"
    by (simp_all add: sel_candidate_def
          subflow_is_active_def mptcp_dont_reinject_skb_def mptcp_is_def_unavailable_def
          mptcp_is_temp_unavailable_def snd_wnd_bypassed_def
          ex_kernel_def ex_sub_def ex_sub_B_def ex_skb_def)
  show ?thesis
    using selector_lowest_srtt_first_seen [OF e] e c by simp
qed

subsection \<open>Passes and restart of the selector\<close>

lemma selectors_loop_traced_eq:
  "selectors_loop_traced k subs skb selector z js sv =
     (selectors_loop k subs skb selector z js (fst sv), snd sv @ js)"
  by (induction js arbitrary: sv) auto

lemma get_subflow_from_selectors_traced_eq:
  "get_subflow_from_selectors_traced k subs skb selector z =
     (get_subflow_from_selectors k subs skb selector z, [0..<length subs])"
  by (simp add: get_subflow_from_selectors_traced_def get_subflow_from_selectors_def
        selectors_loop_traced_eq Let_def)

lemma find_best_subflow_traced_looping:
  "\<exists>passes. find_best_subflow_traced k subs skb z True
       = (find_best_subflow k subs skb z True, passes, 0)
     \<and> (passes = [(Pass_active, [0..<length subs])]
         \<or> passes = [(Pass_active, [0..<length subs]), (Pass_backup, [0..<length subs])])"
  by (subst find_best_subflow_traced.simps, subst find_best_subflow.simps)
     (auto simp: get_subflow_from_selectors_traced_eq split: prod.splits)

lemma find_best_subflow_traced_first:
  "\<exists>passes restarts. find_best_subflow_traced k subs skb z False
       = (find_best_subflow k subs skb z False, passes, restarts)
     \<and> restarts \<le> 1
     \<and> ((restarts = 0 \<and> (passes = [(Pass_active, [0..<length subs])]
            \<or> passes = [(Pass_active, [0..<length subs]), (Pass_backup, [0..<length subs])]))
         \<or> (restarts = 1 \<and> (passes = [(Pass_active, [0..<length subs]), (Pass_backup, [0..<length subs]),
                         (Pass_active, [0..<length subs])]
            \<or> passes = [(Pass_active, [0..<length subs]), (Pass_backup, [0..<length subs]),
                         (Pass_active, [0..<length subs]), (Pass_backup, [0..<length subs])])))"
  using find_best_subflow_traced_looping [of k subs "clear_path_mask skb" z]
  by (subst find_best_subflow_traced.simps, subst find_best_subflow.simps)
     (auto simp: get_subflow_from_selectors_traced_eq split: prod.splits)


lemma count_list_upt: "count_list [0..<n] j = (if j < n then 1 else 0)"
  by (induction n) auto

lemma get_available_subflow_traced_cases:
  "\<exists>passes restarts. get_available_subflow_traced k m skb z
       = (get_available_subflow k m skb z, passes, restarts)
     \<and> ((restarts = 0 \<and> (passes = []
            \<or> passes = [(Pass_active, [0..<length (subflows m)])]
            \<or> passes = [(Pass_active, [0..<length (subflows m)]),
                         (Pass_backup, [0..<length (subflows m)])]))
         \<or> (restarts = 1 \<and> (passes = [(Pass_active, [0..<length (subflows m)]),
                         (Pass_backup, [0..<length (subflows m)]),
                         (Pass_active, [0..<length (subflows m)])]
            \<or> passes = [(Pass_active, [0..<length (subflows m)]),
                         (Pass_backup, [0..<length (subflows m)]),
                         (Pass_active, [0..<length (subflows m)]),
                         (Pass_backup, [0..<length (subflows m)])])))"
proof (cases "if rcv_shutdown m \<and> (case skb of None \<Rightarrow> False | Some s \<Rightarrow> is_data_fin s)
            then dfin_walk k (subflows m) (dfin_path_index m) skb z [0..<length (subflows m)]
            else None")
  case None
  then have "get_available_subflow_traced k m skb z
        = find_best_subflow_traced k (subflows m) skb z False"
    and "get_available_subflow k m skb z = find_best_subflow k (subflows m) skb z False"
    by (simp_all add: get_available_subflow_traced_def get_available_subflow_def)
  then show ?thesis
    using find_best_subflow_traced_first [of k "subflows m" skb z] by auto
next
  case (Some j)
  then have "get_available_subflow_traced k m skb z = ((Some j, skb), [], 0)"
    and "get_available_subflow k m skb z = (Some j, skb)"
    by (simp_all add: get_available_subflow_traced_def get_available_subflow_def)
  then show ?thesis by simp
qed

text \<open>
  C4, as amended. \<open>get_available_subflow\<close> terminates and takes the jump to
  \<open>restart\<close> at most once. A call makes at most four selector passes: an active and a
  backup pass, and both again after the restart; each pass runs its loop body on each
  subflow exactly once. So one call visits a subflow at most four times, at most
  twice when the restart is not taken, and a subflow is accepted by the classifier of
  at most two passes of a call.
\<close>

theorem get_available_subflow_passes:
  assumes "get_available_subflow_traced k m skb z = (res, passes, restarts)"
  shows "res = get_available_subflow k m skb z
     \<and> restarts \<le> 1
     \<and> length passes \<le> 2 + 2 * restarts
     \<and> (\<forall>p\<in>set passes. snd p = [0..<length (subflows m)])
     \<and> (\<forall>j. count_list (concat (map snd passes)) j \<le> 4)
     \<and> (restarts = 0 \<longrightarrow> (\<forall>j. count_list (concat (map snd passes)) j \<le> 2))
     \<and> (\<forall>j. length (filter (\<lambda>p. j \<in> set (snd p) \<and> pass_selector (fst p) (subflows m ! j))
                        passes) \<le> 2)"
proof -
  let ?all = "[0..<length (subflows m)]"
  from get_available_subflow_traced_cases [of k m skb z] assms
  have r: "res = get_available_subflow k m skb z"
    and c: "(restarts = 0 \<and> (passes = [] \<or> passes = [(Pass_active, ?all)]
              \<or> passes = [(Pass_active, ?all), (Pass_backup, ?all)]))
         \<or> (restarts = 1 \<and> (passes = [(Pass_active, ?all), (Pass_backup, ?all), (Pass_active, ?all)]
              \<or> passes = [(Pass_active, ?all), (Pass_backup, ?all), (Pass_active, ?all),
                           (Pass_backup, ?all)]))"
    by auto
  have ab: "subflow_is_backup tp = (\<not> subflow_is_active tp)" for tp
    by (auto simp: subflow_is_backup_def subflow_is_active_def)
  from c have 1: "restarts \<le> 1" and 2: "length passes \<le> 2 + 2 * restarts"
    and 3: "\<forall>p\<in>set passes. snd p = ?all"
    by auto
  from c have 4: "count_list (concat (map snd passes)) j \<le> 4" for j
    by (auto simp: count_list_upt)
  from c have 5: "restarts = 0 \<longrightarrow> count_list (concat (map snd passes)) j \<le> 2" for j
    by (auto simp: count_list_upt)
  from c have 6: "length (filter (\<lambda>p. j \<in> set (snd p) \<and> pass_selector (fst p) (subflows m ! j))
                        passes) \<le> 2" for j
    by (auto simp: pass_selector_def ab)
  show ?thesis
    using r 1 2 3 4 5 6 by blast
qed

text \<open>
  C4, as amended, on a connection with one available active subflow: one active pass,
  no restart, and the ghost results do not change what is returned.
\<close>

theorem get_available_subflow_passes_witness:
  "get_available_subflow_traced ex_kernel ex_cb_send (Some ex_seg) False
     = ((Some 0, Some ex_seg), [(Pass_active, [0])], 0)
   \<and> get_available_subflow ex_kernel ex_cb_send (Some ex_seg) False = (Some 0, Some ex_seg)
   \<and> count_list (concat (map snd [(Pass_active, [0::nat])])) 0 = 1"
proof -
  have a: "get_available_subflow_traced ex_kernel ex_cb_send (Some ex_seg) False
     = ((Some 0, Some ex_seg), [(Pass_active, [0])], 0)"
    by (simp add: get_available_subflow_traced_def find_best_subflow_traced.simps
          get_subflow_from_selectors_traced_def ex_eval)
  have b: "get_available_subflow ex_kernel ex_cb_send (Some ex_seg) False = (Some 0, Some ex_seg)"
    using get_available_subflow_passes [OF a] by simp
  show ?thesis
    using a b by simp
qed

text \<open>
  C4 as stated fails on a connection whose only subflow is potentially failed: both
  passes find nothing, the path mask is cleared, the restart is taken, and the two
  passes run again, so the selector visits subflow 0 four times in one call.
\<close>

theorem get_available_subflow_passes_counterexample:
  "fst (snd (get_available_subflow_traced ex_kernel
               (ex_cb_send\<lparr>subflows := [ex_sub\<lparr>pf := True\<rparr>]\<rparr>) (Some ex_seg) False))
     = [(Pass_active, [0]), (Pass_backup, [0]), (Pass_active, [0]), (Pass_backup, [0])]
   \<and> snd (snd (get_available_subflow_traced ex_kernel
               (ex_cb_send\<lparr>subflows := [ex_sub\<lparr>pf := True\<rparr>]\<rparr>) (Some ex_seg) False)) = 1
   \<and> count_list (concat (map snd (fst (snd (get_available_subflow_traced ex_kernel
               (ex_cb_send\<lparr>subflows := [ex_sub\<lparr>pf := True\<rparr>]\<rparr>) (Some ex_seg) False))))) 0
       = 4
   \<and> get_available_subflow ex_kernel
        (ex_cb_send\<lparr>subflows := [ex_sub\<lparr>pf := True\<rparr>]\<rparr>) (Some ex_seg) False
       = (None, Some ex_seg)"
  by (simp add: get_available_subflow_traced_def find_best_subflow_traced.simps
        get_subflow_from_selectors_traced_def ex_eval)

subsection \<open>The receive-buffer optimisation\<close>

lemma penalize_body_length [simp]:
  "length (penalize_body k i h now j subs) = length subs"
  by (simp add: penalize_body_def Let_def)

lemma penalize_body_nth:
  assumes "i < length subs" "j < length subs" "x < length subs"
  shows "penalize_body k i h now j subs ! x =
     (if penalized k subs i h j
      then (if x = j then halved (subs ! j)
            else if x = i then (subs ! i)\<lparr>last_rbuf_opti := now\<rparr> else subs ! x)
      else subs ! x)"
  using assms
  by (auto simp: penalize_body_def penalized_def co_carrier_def halved_def Let_def nth_list_update)


lemma penalized_body:
  assumes "i < length subs" "j < length subs" "y < length subs"
  shows "penalized k (penalize_body k i h now j subs) i h y = penalized k subs i h y"
proof -
  have f: "path_index (penalize_body k i h now j subs ! x) = path_index (subs ! x)
         \<and> srtt_us (penalize_body k i h now j subs ! x) = srtt_us (subs ! x)
         \<and> icsk_ca_state (penalize_body k i h now j subs ! x) = icsk_ca_state (subs ! x)"
    if "x < length subs" for x
    using assms that by (simp add: penalize_body_nth halved_def)
  show ?thesis
    using f [of y] f [of i] assms by (simp add: penalized_def co_carrier_def)
qed




lemma penalize_loop_length [simp]:
  "length (penalize_loop k i h now js subs) = length subs"
  by (induction js arbitrary: subs) auto

lemma penalize_loop_nth:
  assumes "i < length subs" "x < length subs" "distinct js" "\<forall>j\<in>set js. j < length subs"
  shows "penalize_loop k i h now js subs ! x =
     (if x \<in> set js \<and> penalized k subs i h x then halved (subs ! x)
      else if x = i \<and> (\<exists>j\<in>set js. penalized k subs i h j)
           then (subs ! i)\<lparr>last_rbuf_opti := now\<rparr>
           else subs ! x)"
  using assms
proof (induction js arbitrary: subs)
  case Nil
  then show ?case by simp
next
  case (Cons j js)
  let ?s = "penalize_body k i h now j subs"
  have jl: "j < length subs" and dj: "j \<notin> set js"
    using Cons.prems by auto
  have p: "penalized k ?s i h y = penalized k subs i h y" if "y < length subs" for y
    using Cons.prems(1) jl that by (rule penalized_body)
  have px: "penalized k ?s i h x = penalized k subs i h x"
    using p Cons.prems(2) by blast
  have pj: "(\<exists>y\<in>set js. penalized k ?s i h y) = (\<exists>y\<in>set js. penalized k subs i h y)"
    using p Cons.prems(4) by auto
  have ni: "\<not> penalized k subs i h i"
    by (simp add: penalized_def co_carrier_def)
  have sx: "?s ! y =
     (if penalized k subs i h j
      then (if y = j then halved (subs ! j)
            else if y = i then (subs ! i)\<lparr>last_rbuf_opti := now\<rparr> else subs ! y)
      else subs ! y)" if "y < length subs" for y
    using Cons.prems(1) jl that by (rule penalize_body_nth)
  have ih: "penalize_loop k i h now js ?s ! x =
     (if x \<in> set js \<and> penalized k ?s i h x then halved (?s ! x)
      else if x = i \<and> (\<exists>j\<in>set js. penalized k ?s i h j)
           then (?s ! i)\<lparr>last_rbuf_opti := now\<rparr>
           else ?s ! x)"
    using Cons.prems by (intro Cons.IH) auto
  have "penalize_loop k i h now (j # js) subs ! x = penalize_loop k i h now js ?s ! x"
    by simp
  also have "\<dots> =
     (if x \<in> set js \<and> penalized k subs i h x then halved (?s ! x)
      else if x = i \<and> (\<exists>j\<in>set js. penalized k subs i h j)
           then (?s ! i)\<lparr>last_rbuf_opti := now\<rparr>
           else ?s ! x)"
    by (simp only: ih px pj)
  also have "\<dots> =
     (if x \<in> set (j # js) \<and> penalized k subs i h x then halved (subs ! x)
      else if x = i \<and> (\<exists>j\<in>set (j # js). penalized k subs i h j)
           then (subs ! i)\<lparr>last_rbuf_opti := now\<rparr>
           else subs ! x)"
  proof (cases "penalized k subs i h j")
    case True
    then have ji: "j \<noteq> i" using ni by auto
    have si: "?s ! i = (subs ! i)\<lparr>last_rbuf_opti := now\<rparr>"
      using sx [OF Cons.prems(1)] True ji by simp
    show ?thesis
    proof (cases "x = j")
      case xj: True
      have "?s ! x = halved (subs ! j)"
        using sx [OF Cons.prems(2)] True xj by simp
      then show ?thesis
        using True xj ji dj by simp
    next
      case xj: False
      show ?thesis
      proof (cases "x = i")
        case xi: True
        then show ?thesis
          using True xj ni si by simp
      next
        case xi: False
        have "?s ! x = subs ! x"
          using sx [OF Cons.prems(2)] True xj xi by simp
        then show ?thesis
          using xj xi by simp
      qed
    qed
  next
    case False
    have e: "?s ! x = subs ! x" "?s ! i = subs ! i"
      using sx [OF Cons.prems(2)] sx [OF Cons.prems(1)] False by simp_all
    show ?thesis
      unfolding e using False by (cases "x = j") simp_all
  qed
  finally show ?case .
qed


lemma rcv_buf_opt_penalize:
  assumes "rtx_queue_head m = Some h" "\<not> penalization_optional m penal"
    "\<not> penalized_recently k m i"
  shows "mptcp_rcv_buf_optimization k m i penal =
     (retrans_decision k
        (penalize_loop k i h (jiffies32 m) [0..<length (subflows m)] (subflows m)) i h,
      m\<lparr>subflows := penalize_loop k i h (jiffies32 m) [0..<length (subflows m)] (subflows m)\<rparr>)"
  using assms by (simp add: mptcp_rcv_buf_optimization_def Let_def)

lemma penalize_all_nth:
  assumes "i < length subs" "x < length subs"
  shows "penalize_loop k i h now [0..<length subs] subs ! x =
     (if penalized k subs i h x then halved (subs ! x)
      else if x = i \<and> (\<exists>j<length subs. penalized k subs i h j)
           then (subs ! i)\<lparr>last_rbuf_opti := now\<rparr>
           else subs ! x)"
  using penalize_loop_nth [OF assms, of "[0..<length subs]" k h now] assms
  by (simp add: Bex_def)

lemma halved_fields:
  "current_mss (halved tp) = current_mss tp"
  "path_index (halved tp) = path_index tp"
  "srtt_us (halved tp) = srtt_us tp"
  "mptcp_is_def_unavailable (halved tp) = mptcp_is_def_unavailable tp"
  by (simp_all add: halved_def mptcp_is_def_unavailable_def)

lemma def_unavailable_last_rbuf_opti:
  "mptcp_is_def_unavailable (tp\<lparr>last_rbuf_opti := v\<rparr>) = mptcp_is_def_unavailable tp"
  by (simp add: mptcp_is_def_unavailable_def)

lemma penalize_all_frame:
  assumes "i < length subs" "x < length subs"
  shows "current_mss (penalize_loop k i h now [0..<length subs] subs ! x) = current_mss (subs ! x)"
    and "path_index (penalize_loop k i h now [0..<length subs] subs ! x) = path_index (subs ! x)"
    and "mptcp_is_def_unavailable (penalize_loop k i h now [0..<length subs] subs ! x)
           = mptcp_is_def_unavailable (subs ! x)"
  using assms
  by (simp_all add: penalize_all_nth halved_fields def_unavailable_last_rbuf_opti)

lemma rcv_buf_opt_length:
  "length (subflows (snd (mptcp_rcv_buf_optimization k m i penal))) = length (subflows m)"
  by (simp add: mptcp_rcv_buf_optimization_def Let_def split: option.splits)

lemma rcv_buf_opt_frame:
  assumes "i < length (subflows m)" "x < length (subflows m)"
  shows "current_mss (subflows (snd (mptcp_rcv_buf_optimization k m i penal)) ! x)
           = current_mss (subflows m ! x)
       \<and> path_index (subflows (snd (mptcp_rcv_buf_optimization k m i penal)) ! x)
           = path_index (subflows m ! x)
       \<and> mptcp_is_def_unavailable (subflows (snd (mptcp_rcv_buf_optimization k m i penal)) ! x)
           = mptcp_is_def_unavailable (subflows m ! x)"
  using assms
  by (simp add: mptcp_rcv_buf_optimization_def Let_def penalize_all_frame split: option.splits)

text \<open>
  C2, as amended. When \<open>mptcp_rcv_buf_optimization\<close> is called with \<open>penal = 0\<close> while
  the meta socket has send-buffer space, and likewise when less than
  \<open>srtt_us(S)/8\<close> has passed since \<open>last_rbuf_opti\<close>, control jumps to the label
  \<open>retrans\<close>: the penalisation loop is skipped, no \<open>snd_cwnd\<close>, \<open>snd_ssthresh\<close> or
  \<open>last_rbuf_opti\<close> changes, and the result is the reinjection decision on the
  unchanged subflows.
\<close>

theorem rcv_buf_opt_jump_to_retrans:
  assumes "rtx_queue_head m = Some h"
    and "penalization_optional m penal \<or> penalized_recently k m i"
  shows "mptcp_rcv_buf_optimization k m i penal = (retrans_decision k (subflows m) i h, m)"
  using assms by (auto simp: mptcp_rcv_buf_optimization_def)

text \<open>
  C2, as amended, on the connection \<open>ex_cb\<close>: subflow 0 with \<open>srtt_us\<close> 10000, the head
  of the retransmit queue carried by subflow 1 with \<open>srtt_us\<close> 20000. Once with
  \<open>penal = 0\<close> and send-buffer space, once one jiffy after the last penalisation.
\<close>

theorem rcv_buf_opt_jump_to_retrans_witness:
  "penalization_optional ex_cb False
   \<and> mptcp_rcv_buf_optimization ex_kernel ex_cb 0 False = (None, ex_cb)
   \<and> penalized_recently ex_kernel (ex_cb\<lparr>jiffies32 := 1\<rparr>) 0
   \<and> mptcp_rcv_buf_optimization ex_kernel (ex_cb\<lparr>jiffies32 := 1\<rparr>) 0 True
        = (None, ex_cb\<lparr>jiffies32 := 1\<rparr>)"
proof -
  have a: "rtx_queue_head ex_cb = Some ex_head"
    and b: "rtx_queue_head (ex_cb\<lparr>jiffies32 := 1\<rparr>) = Some ex_head"
    by (simp_all add: ex_cb_def)
  have c: "penalization_optional ex_cb False"
    by (simp add: penalization_optional_def ex_cb_def)
  have d: "penalized_recently ex_kernel (ex_cb\<lparr>jiffies32 := 1\<rparr>) 0"
    by (simp add: penalized_recently_def ex_cb_def ex_kernel_def ex_sub_def)
  have e: "retrans_decision ex_kernel [ex_sub, ex_sub_B] 0 ex_head = None"
    by (simp add: retrans_decision_def ex_kernel_def ex_sub_def ex_sub_B_def ex_head_def upt_rec)
  have f: "subflows ex_cb = [ex_sub, ex_sub_B]"
    by (simp add: ex_cb_def)
  show ?thesis
    using rcv_buf_opt_jump_to_retrans [OF a, of False ex_kernel 0]
          rcv_buf_opt_jump_to_retrans [OF b, of True ex_kernel 0] c d e f
    by simp
qed

text \<open>
  C2 as stated fails on \<open>ex_cb\<close>: subflow 1 is a slower co-carrier in state Open with
  \<open>snd_cwnd = 10\<close> and \<open>snd_ssthresh = 8\<close>. In both cases of the claim the call leaves
  them at 10 and 8; only a call that takes neither jump halves them to 5 and 4.
\<close>

theorem rcv_buf_opt_jump_counterexample:
  "penalized ex_kernel (subflows ex_cb) 0 ex_head 1
   \<and> penalization_optional ex_cb False
   \<and> snd_cwnd (subflows ex_cb ! 1) = 10
   \<and> snd_ssthresh (subflows ex_cb ! 1) = 8
   \<and> snd_cwnd (subflows (snd (mptcp_rcv_buf_optimization ex_kernel ex_cb 0 False)) ! 1) = 10
   \<and> snd_ssthresh (subflows (snd (mptcp_rcv_buf_optimization ex_kernel ex_cb 0 False)) ! 1) = 8
   \<and> penalized_recently ex_kernel (ex_cb\<lparr>jiffies32 := 1\<rparr>) 0
   \<and> snd_cwnd (subflows (snd (mptcp_rcv_buf_optimization ex_kernel
                                 (ex_cb\<lparr>jiffies32 := 1\<rparr>) 0 True)) ! 1) = 10
   \<and> snd_ssthresh (subflows (snd (mptcp_rcv_buf_optimization ex_kernel
                                 (ex_cb\<lparr>jiffies32 := 1\<rparr>) 0 True)) ! 1) = 8
   \<and> snd_cwnd (subflows (snd (mptcp_rcv_buf_optimization ex_kernel ex_cb 0 True)) ! 1) = 5
   \<and> snd_ssthresh (subflows (snd (mptcp_rcv_buf_optimization ex_kernel ex_cb 0 True)) ! 1) = 4"
  by (simp add: mptcp_rcv_buf_optimization_def penalization_optional_def penalized_recently_def
        penalized_def co_carrier_def penalize_body_def Let_def
        ex_cb_def ex_sub_def ex_sub_B_def ex_head_def ex_kernel_def upt_rec)

text \<open>
  C7, as amended. When the penalisation loop runs (a head is queued and neither jump
  to \<open>retrans\<close> is taken), every penalised co-carrier \<open>T\<close> ends with
  \<open>snd_cwnd = max(snd_cwnd >> 1, 1)\<close>; its \<open>snd_ssthresh\<close> becomes
  \<open>max(snd_ssthresh >> 1, 2)\<close> when the previous \<open>snd_cwnd\<close> was at least
  \<open>snd_ssthresh\<close> and is left alone otherwise. Hence \<open>T.snd_cwnd \<ge> 1\<close> afterwards, and
  \<open>T.snd_ssthresh \<ge> 2\<close> afterwards when it was halved or when the previous \<open>snd_cwnd\<close>
  was at least 1. \<open>last_rbuf_opti\<close> of the calling subflow is the current
  \<open>tcp_jiffies32\<close>.
\<close>

theorem rcv_buf_opt_penalized:
  assumes "rtx_queue_head m = Some h"
    and "\<not> penalization_optional m penal" and "\<not> penalized_recently k m i"
    and "i < length (subflows m)" and "j < length (subflows m)"
    and "penalized k (subflows m) i h j"
    and "m' = snd (mptcp_rcv_buf_optimization k m i penal)"
  shows "snd_cwnd (subflows m' ! j) = max (drop_bit 1 (snd_cwnd (subflows m ! j))) 1
     \<and> snd_ssthresh (subflows m' ! j) =
         (if snd_cwnd (subflows m ! j) \<ge> snd_ssthresh (subflows m ! j)
          then max (drop_bit 1 (snd_ssthresh (subflows m ! j))) 2
          else snd_ssthresh (subflows m ! j))
     \<and> 1 \<le> snd_cwnd (subflows m' ! j)
     \<and> (snd_cwnd (subflows m ! j) \<ge> snd_ssthresh (subflows m ! j)
          \<longrightarrow> 2 \<le> snd_ssthresh (subflows m' ! j))
     \<and> (1 \<le> snd_cwnd (subflows m ! j) \<longrightarrow> 2 \<le> snd_ssthresh (subflows m' ! j))
     \<and> last_rbuf_opti (subflows m' ! i) = jiffies32 m"
proof -
  let ?s = "subflows m"
  have ji: "j \<noteq> i" using assms(6) by (simp add: penalized_def co_carrier_def)
  have ni: "\<not> penalized k ?s i h i" by (simp add: penalized_def co_carrier_def)
  have s': "subflows m' = penalize_loop k i h (jiffies32 m) [0..<length ?s] ?s"
    using assms(1,2,3,7) by (simp add: rcv_buf_opt_penalize)
  have tj: "subflows m' ! j = halved (?s ! j)"
    using assms(4,5,6) by (simp add: s' penalize_all_nth)
  have ti: "subflows m' ! i = (?s ! i)\<lparr>last_rbuf_opti := jiffies32 m\<rparr>"
    using assms(4,5,6) ni by (auto simp: s' penalize_all_nth)
  have w: "(2::u32) \<le> t" if "c < t" "1 \<le> c" for c t :: u32
    using that by (simp add: word_le_nat_alt word_less_nat_alt)
  show ?thesis
    using w [of "snd_cwnd (?s ! j)" "snd_ssthresh (?s ! j)"]
    by (auto simp: tj ti halved_def)
qed

text \<open>C7, as amended, on \<open>ex_cb\<close>: subflow 1 goes from 10 and 8 to 5 and 4.\<close>

theorem rcv_buf_opt_penalized_witness:
  "snd_cwnd (subflows (snd (mptcp_rcv_buf_optimization ex_kernel ex_cb 0 True)) ! 1) = 5
   \<and> snd_ssthresh (subflows (snd (mptcp_rcv_buf_optimization ex_kernel ex_cb 0 True)) ! 1) = 4
   \<and> last_rbuf_opti (subflows (snd (mptcp_rcv_buf_optimization ex_kernel ex_cb 0 True)) ! 0) = 100"
proof -
  have a: "rtx_queue_head ex_cb = Some ex_head"
    by (simp add: ex_cb_def)
  have b: "\<not> penalization_optional ex_cb True"
    by (simp add: penalization_optional_def)
  have c: "\<not> penalized_recently ex_kernel ex_cb 0"
    by (simp add: penalized_recently_def ex_cb_def ex_kernel_def ex_sub_def)
  have d: "0 < length (subflows ex_cb)" "1 < length (subflows ex_cb)"
    by (simp_all add: ex_cb_def)
  have e: "penalized ex_kernel (subflows ex_cb) 0 ex_head 1"
    by (simp add: penalized_def co_carrier_def ex_cb_def ex_kernel_def ex_sub_def ex_sub_B_def
          ex_head_def)
  show ?thesis
    using rcv_buf_opt_penalized [OF a b c d e refl]
    by (simp add: ex_cb_def ex_sub_B_def ex_sub_def)
qed

text \<open>
  C7 as stated fails for a penalised co-carrier in slow start with \<open>snd_cwnd = 0\<close> and
  \<open>snd_ssthresh = 1\<close>: its \<open>snd_cwnd\<close> becomes 1 and its \<open>snd_ssthresh\<close> stays 1,
  below 2.
\<close>

theorem rcv_buf_opt_penalized_counterexample:
  "penalized ex_kernel [ex_sub, ex_sub_B\<lparr>snd_cwnd := 0, snd_ssthresh := 1\<rparr>] 0 ex_head 1
   \<and> snd_cwnd (subflows (snd (mptcp_rcv_buf_optimization ex_kernel
        (ex_cb\<lparr>subflows := [ex_sub, ex_sub_B\<lparr>snd_cwnd := 0, snd_ssthresh := 1\<rparr>]\<rparr>) 0 True)) ! 1) = 1
   \<and> snd_ssthresh (subflows (snd (mptcp_rcv_buf_optimization ex_kernel
        (ex_cb\<lparr>subflows := [ex_sub, ex_sub_B\<lparr>snd_cwnd := 0, snd_ssthresh := 1\<rparr>]\<rparr>) 0 True)) ! 1) = 1"
  by (simp add: mptcp_rcv_buf_optimization_def penalization_optional_def penalized_recently_def
        penalized_def co_carrier_def penalize_body_def Let_def
        ex_cb_def ex_sub_def ex_sub_B_def ex_head_def ex_kernel_def upt_rec)

lemma retrans_scan_find:
  "retrans_scan k subs i h js d =
     (case find (\<lambda>j. snd_cwnd (subs ! j) \<le> 4 \<or> srtt_us (subs ! j) \<le> 4 * srtt_us (subs ! i))
             (filter (co_carrier k subs i h) js) of
        Some j \<Rightarrow> snd_cwnd (subs ! j) \<le> 4
      | None \<Rightarrow> d \<or> filter (co_carrier k subs i h) js \<noteq> [])"
  by (induction js arbitrary: d) (auto simp: co_carrier_def split: option.splits)

lemma word_times4_le:
  fixes a b :: u32
  assumes "unat a < 2 ^ 30"
  shows "(b \<le> 4 * a) = (unat b \<le> 4 * unat a)"
proof -
  have "unat (4 * a) = 4 * unat a"
    using assms by (simp add: unat_word_ariths)
  then show ?thesis by (simp add: word_le_nat_alt)
qed

text \<open>
  C6, as amended. The scan that decides \<open>do_retrans\<close> walks the subflows in
  iteration order and skips those that are not co-carriers of the head. At each
  co-carrier \<open>T\<close> in turn: if \<open>T.snd_cwnd \<le> 4\<close> the scan stops with true; else if
  \<open>4 * S.srtt_us \<ge> T.srtt_us\<close>, the product taken in 32 bits (the plain product
  while \<open>S.srtt_us < 2^30\<close>), it stops with false; otherwise \<open>do_retrans\<close> becomes
  true and the scan goes on. So the outcome is decided by the first co-carrier at
  which one of the two tests holds, a co-carrier with \<open>snd_cwnd \<le> 4\<close> behind it is not
  reached, and the outcome is true without such a co-carrier when there is a
  co-carrier at all. When the head has not been sent on \<open>S\<close>, the head is returned
  exactly when the final \<open>do_retrans\<close> is true and \<open>S\<close> is available for the head
  with \<open>zero_wnd_test = false\<close>.
\<close>

theorem retrans_scan_rules:
  "(co_carrier k subs i h j \<and> snd_cwnd (subs ! j) \<le> 4
      \<longrightarrow> retrans_scan k subs i h (j # js) d = True)
   \<and> (co_carrier k subs i h j \<and> \<not> snd_cwnd (subs ! j) \<le> 4
        \<and> srtt_us (subs ! j) \<le> 4 * srtt_us (subs ! i)
      \<longrightarrow> retrans_scan k subs i h (j # js) d = False)
   \<and> (co_carrier k subs i h j \<and> \<not> snd_cwnd (subs ! j) \<le> 4
        \<and> \<not> srtt_us (subs ! j) \<le> 4 * srtt_us (subs ! i)
      \<longrightarrow> retrans_scan k subs i h (j # js) d = retrans_scan k subs i h js True)
   \<and> (\<not> co_carrier k subs i h j
      \<longrightarrow> retrans_scan k subs i h (j # js) d = retrans_scan k subs i h js d)
   \<and> retrans_scan k subs i h [] d = d
   \<and> retrans_scan k subs i h js d =
       (case find (\<lambda>j. snd_cwnd (subs ! j) \<le> 4 \<or> srtt_us (subs ! j) \<le> 4 * srtt_us (subs ! i))
               (filter (co_carrier k subs i h) js) of
          Some j \<Rightarrow> snd_cwnd (subs ! j) \<le> 4
        | None \<Rightarrow> d \<or> filter (co_carrier k subs i h) js \<noteq> [])
   \<and> (unat (srtt_us (subs ! i)) < 2 ^ 30 \<longrightarrow>
        (srtt_us (subs ! j) \<le> 4 * srtt_us (subs ! i))
          = (unat (srtt_us (subs ! j)) \<le> 4 * unat (srtt_us (subs ! i))))
   \<and> (rtx_queue_head m = Some h
        \<and> path_mask h AND mptcp_pi_to_flag k (path_index (subflows m ! i)) = 0
        \<and> i < length (subflows m)
        \<and> subs' = subflows (snd (mptcp_rcv_buf_optimization k m i penal))
      \<longrightarrow> fst (mptcp_rcv_buf_optimization k m i penal) =
            (if retrans_scan k subs' i h [0..<length subs'] False
                \<and> mptcp_is_available k (subs' ! i) (Some h) False
             then Some h else None))"
proof -
  have r: "fst (mptcp_rcv_buf_optimization k m i penal) =
            (if retrans_scan k subs' i h [0..<length subs'] False
                \<and> mptcp_is_available k (subs' ! i) (Some h) False
             then Some h else None)"
    if "rtx_queue_head m = Some h"
      "path_mask h AND mptcp_pi_to_flag k (path_index (subflows m ! i)) = 0"
      "i < length (subflows m)"
      "subs' = subflows (snd (mptcp_rcv_buf_optimization k m i penal))"
  proof -
    have "path_index (subs' ! i) = path_index (subflows m ! i)"
      using rcv_buf_opt_frame [OF that(3) that(3), of k penal] that(4) by simp
    moreover have "fst (mptcp_rcv_buf_optimization k m i penal) = retrans_decision k subs' i h"
      using that(1,4) by (simp add: mptcp_rcv_buf_optimization_def Let_def)
    ultimately show ?thesis
      using that(2) by (simp add: retrans_decision_def)
  qed
  show ?thesis
    using r retrans_scan_find [of k subs i h js d] word_times4_le [of "srtt_us (subs ! i)" "srtt_us (subs ! j)"]
    by (simp add: co_carrier_def)
qed

text \<open>
  C6, as amended, on \<open>ex_cb\<close>, where subflow 1 (\<open>snd_cwnd = 10\<close>) is the only co-carrier of the
  head and subflow 0 calls: with \<open>srtt_us\<close> 10000 against 20000 the scan ends false and
  nothing is returned; against 80000 it ends true and the head is returned; with
  \<open>snd_cwnd = 4\<close> on subflow 1 it ends true.
\<close>

theorem retrans_scan_rules_witness:
  "co_carrier ex_kernel [ex_sub, ex_sub_B] 0 ex_head 1
   \<and> retrans_scan ex_kernel [ex_sub, ex_sub_B] 0 ex_head [1] False = False
   \<and> retrans_scan ex_kernel [ex_sub, ex_sub_B\<lparr>srtt_us := 80000\<rparr>] 0 ex_head [1] False = True
   \<and> retrans_scan ex_kernel [ex_sub, ex_sub_B\<lparr>snd_cwnd := 4\<rparr>] 0 ex_head [1] False = True
   \<and> fst (mptcp_rcv_buf_optimization ex_kernel ex_cb 0 False) = None
   \<and> fst (mptcp_rcv_buf_optimization ex_kernel
             (ex_cb\<lparr>subflows := [ex_sub, ex_sub_B\<lparr>srtt_us := 80000\<rparr>]\<rparr>) 0 False)
       = Some ex_head"
  using retrans_scan_rules [where k = ex_kernel and subs = "[ex_sub, ex_sub_B]" and i = 0
          and h = ex_head and j = 1 and js = "[]" and d = False and m = ex_cb
          and penal = False and subs' = "[ex_sub, ex_sub_B]"]
        retrans_scan_rules [where k = ex_kernel
          and subs = "[ex_sub, ex_sub_B\<lparr>srtt_us := 80000\<rparr>]" and i = 0
          and h = ex_head and j = 1 and js = "[]" and d = False
          and m = "ex_cb\<lparr>subflows := [ex_sub, ex_sub_B\<lparr>srtt_us := 80000\<rparr>]\<rparr>"
          and penal = False and subs' = "[ex_sub, ex_sub_B\<lparr>srtt_us := 80000\<rparr>]"]
        retrans_scan_rules [where k = ex_kernel
          and subs = "[ex_sub, ex_sub_B\<lparr>snd_cwnd := 4\<rparr>]" and i = 0
          and h = ex_head and j = 1 and js = "[]" and d = False and m = ex_cb
          and penal = False and subs' = "[ex_sub, ex_sub_B]"]
  by (simp add: co_carrier_def mptcp_rcv_buf_optimization_def penalization_optional_def
        retrans_decision_def Let_def mptcp_is_available_def mptcp_is_def_unavailable_def mptcp_is_temp_unavailable_def
        snd_wnd_bypassed_def ex_cb_def ex_kernel_def ex_sub_def ex_sub_B_def ex_head_def
        upt_rec)

text \<open>
  C6 as stated fails in two ways. First, some co-carrier has \<open>snd_cwnd \<le> 4\<close> and
  \<open>do_retrans\<close> is still false: subflow 0 (\<open>srtt_us\<close> 10000) calls, the head is
  carried by subflow 1 (\<open>snd_cwnd\<close> 10, \<open>srtt_us\<close> 20000) and subflow 2
  (\<open>snd_cwnd\<close> 4); the scan stops with false at subflow 1, subflow 2 is never
  reached, and nothing is returned although subflow 0 is available. With the two
  co-carriers in the other order the scan ends true. Second, the plain product
  \<open>4 * S.srtt_us\<close> is at least \<open>T.srtt_us\<close> and the scan does not stop with false:
  with \<open>S.srtt_us = 2^30\<close> the 32-bit product is 0, below \<open>T.srtt_us = 1342177280\<close>,
  and the head is returned.
\<close>

theorem retrans_scan_rules_counterexample:
  "co_carrier ex_kernel
      [ex_sub, ex_sub_B, ex_sub_B\<lparr>path_index := 3, snd_cwnd := 4\<rparr>] 0
      (ex_head\<lparr>path_mask := 12\<rparr>) 2
   \<and> snd_cwnd ([ex_sub, ex_sub_B, ex_sub_B\<lparr>path_index := 3, snd_cwnd := 4\<rparr>] ! 2) \<le> 4
   \<and> path_mask (ex_head\<lparr>path_mask := 12\<rparr>)
         AND mptcp_pi_to_flag ex_kernel (path_index ex_sub) = 0
   \<and> mptcp_is_available ex_kernel ex_sub (Some (ex_head\<lparr>path_mask := 12\<rparr>)) False
   \<and> retrans_scan ex_kernel
         [ex_sub, ex_sub_B, ex_sub_B\<lparr>path_index := 3, snd_cwnd := 4\<rparr>] 0
         (ex_head\<lparr>path_mask := 12\<rparr>) [0, 1, 2] False = False
   \<and> mptcp_rcv_buf_optimization ex_kernel
         (ex_cb\<lparr>subflows := [ex_sub, ex_sub_B, ex_sub_B\<lparr>path_index := 3, snd_cwnd := 4\<rparr>],
                 rtx_queue_head := Some (ex_head\<lparr>path_mask := 12\<rparr>)\<rparr>) 0 False
       = (None,
          ex_cb\<lparr>subflows := [ex_sub, ex_sub_B, ex_sub_B\<lparr>path_index := 3, snd_cwnd := 4\<rparr>],
                 rtx_queue_head := Some (ex_head\<lparr>path_mask := 12\<rparr>)\<rparr>)
   \<and> retrans_scan ex_kernel
         [ex_sub, ex_sub_B\<lparr>path_index := 3, snd_cwnd := 4\<rparr>, ex_sub_B] 0
         (ex_head\<lparr>path_mask := 12\<rparr>) [0, 1, 2] False = True
   \<and> unat (srtt_us (ex_sub_B\<lparr>srtt_us := 1342177280\<rparr>))
         \<le> 4 * unat (srtt_us (ex_sub\<lparr>srtt_us := 1073741824\<rparr>))
   \<and> \<not> snd_cwnd (ex_sub_B\<lparr>srtt_us := 1342177280\<rparr>) \<le> 4
   \<and> retrans_scan ex_kernel
         [ex_sub\<lparr>srtt_us := 1073741824\<rparr>, ex_sub_B\<lparr>srtt_us := 1342177280\<rparr>] 0
         ex_head [0, 1] False = True
   \<and> fst (mptcp_rcv_buf_optimization ex_kernel
         (ex_cb\<lparr>subflows := [ex_sub\<lparr>srtt_us := 1073741824\<rparr>,
                               ex_sub_B\<lparr>srtt_us := 1342177280\<rparr>]\<rparr>) 0 False)
       = Some ex_head"
  by (simp add: co_carrier_def mptcp_rcv_buf_optimization_def penalization_optional_def
        retrans_decision_def Let_def mptcp_is_available_def mptcp_is_def_unavailable_def
        mptcp_is_temp_unavailable_def snd_wnd_bypassed_def
        ex_cb_def ex_kernel_def ex_sub_def ex_sub_B_def ex_head_def upt_rec)

subsection \<open>The segment chooser\<close>

text \<open>
  The segment that \<open>get_available_subflow\<close> leaves behind is the one it was given, up
  to its \<open>path_mask\<close>.
\<close>

lemma find_best_subflow_skb:
  "find_best_subflow k subs (Some s) z looping = (r, skb') \<Longrightarrow>
     \<exists>s'. skb' = Some s' \<and> len s' = len s"
proof (induction k subs "Some s" z looping arbitrary: s rule: find_best_subflow.induct)
  case (1 k subs z looping)
  obtain sk force where a: "get_subflow_from_selectors k subs (Some s) subflow_is_active z = (sk, force)"
    by (cases "get_subflow_from_selectors k subs (Some s) subflow_is_active z")
  obtain sk2 force2 where b: "get_subflow_from_selectors k subs (Some s) subflow_is_backup z = (sk2, force2)"
    by (cases "get_subflow_from_selectors k subs (Some s) subflow_is_backup z")
  have c: "clear_path_mask (Some s) = Some (s\<lparr>path_mask := 0\<rparr>)"
    by (simp add: clear_path_mask_def)
  have eq: "find_best_subflow k subs (Some s) z looping =
     (if force then (sk, Some s)
      else if \<not> force2
           then (if \<not> looping then find_best_subflow k subs (Some (s\<lparr>path_mask := 0\<rparr>)) z True
                 else (sk2, Some (s\<lparr>path_mask := 0\<rparr>)))
           else (sk2, Some s))"
    by (subst find_best_subflow.simps) (simp add: a b c)
  show ?case
  proof (cases "\<not> force \<and> \<not> force2 \<and> \<not> looping")
    case True
    then have "find_best_subflow k subs (Some (s\<lparr>path_mask := 0\<rparr>)) z True = (r, skb')"
      using "1.prems" eq by simp
    then have "\<exists>s'. skb' = Some s' \<and> len s' = len (s\<lparr>path_mask := 0\<rparr>)"
      using "1.hyps" [OF a [symmetric] _ b [symmetric] _ _ c] True by simp
    then show ?thesis by simp
  next
    case False
    then show ?thesis
      using "1.prems" eq by (auto split: if_splits)
  qed
qed

lemma get_available_subflow_skb:
  "get_available_subflow k m (Some s) z = (r, skb') \<Longrightarrow> \<exists>s'. skb' = Some s' \<and> len s' = len s"
  by (auto simp: get_available_subflow_def split: option.splits if_splits
           dest: find_best_subflow_skb)

lemma next_segment_inner_frame:
  assumes "mptcp_next_segment_inner k m = (skb, reinject, m1)"
  shows "length (subflows m1) = length (subflows m)"
    and "x < length (subflows m) \<Longrightarrow> current_mss (subflows m1 ! x) = current_mss (subflows m ! x)"
    and "x < length (subflows m) \<Longrightarrow>
           mptcp_is_def_unavailable (subflows m1 ! x) = mptcp_is_def_unavailable (subflows m ! x)"
proof -
  have "m1 = m \<or> (\<exists>i < length (subflows m). m1 = snd (mptcp_rcv_buf_optimization k m i False))"
    using assms get_available_subflow_Some [of k m None False]
    by (auto simp: mptcp_next_segment_inner_def split: option.splits if_splits prod.splits)
  then show "length (subflows m1) = length (subflows m)"
    and "x < length (subflows m) \<Longrightarrow> current_mss (subflows m1 ! x) = current_mss (subflows m ! x)"
    and "x < length (subflows m) \<Longrightarrow>
           mptcp_is_def_unavailable (subflows m1 ! x) = mptcp_is_def_unavailable (subflows m ! x)"
    using rcv_buf_opt_length rcv_buf_opt_frame by auto
qed


lemma next_segment_subsk:
  assumes "ns_subsk (mptcp_next_segment k m) = Some i"
  shows "i < length (subflows m) \<and> \<not> mptcp_is_def_unavailable (subflows m ! i)
     \<and> length (ns_subflows (mptcp_next_segment k m)) = length (subflows m)
     \<and> current_mss (ns_subflows (mptcp_next_segment k m) ! i) = current_mss (subflows m ! i)
     \<and> mptcp_is_def_unavailable (ns_subflows (mptcp_next_segment k m) ! i)
          = mptcp_is_def_unavailable (subflows m ! i)
     \<and> (\<forall>K. ns_skb (mptcp_next_segment k m) = Some K \<longrightarrow>
          next_segment_limit k (ns_subflows (mptcp_next_segment k m) ! i) K
              (current_mss (subflows m ! i))
            = Some (ns_limit (mptcp_next_segment k m)))"
proof -
  obtain skb0 reinject m1 where a: "mptcp_next_segment_inner k m = (skb0, reinject, m1)"
    by (cases "mptcp_next_segment_inner k m")
  note fr = next_segment_inner_frame [OF a]
  from assms a obtain s0 where s0: "skb0 = Some s0"
    by (cases skb0) (auto simp: mptcp_next_segment_def)
  obtain sk skb_after where b: "get_available_subflow k m1 (Some s0) False = (sk, skb_after)"
    by (cases "get_available_subflow k m1 (Some s0) False")
  have sk: "sk = Some i"
    using assms a s0 b
    by (cases sk) (auto simp: mptcp_next_segment_def Let_def split: option.splits prod.splits if_splits)
  have i1: "i < length (subflows m1)" and d1: "\<not> mptcp_is_def_unavailable (subflows m1 ! i)"
    using get_available_subflow_Some [of k m1 "Some s0" False i] b sk by simp_all
  have il: "i < length (subflows m)" using i1 fr(1) by simp
  define skb where "skb = (case skb_after of Some s \<Rightarrow> s | None \<Rightarrow> s0)"
  define mss_now where "mss_now = current_mss (subflows m1 ! i)"
  have mss: "mss_now = current_mss (subflows m ! i)"
    using fr(2) [OF il] by (simp add: mss_now_def)
  define mid where "mid =
     (if reinject = 0 \<and> \<not> tcp_snd_wnd_test k skb mss_now
      then (case mptcp_rcv_buf_optimization k m1 i True of
              (Some h, m2) \<Rightarrow> (Some h, - 1, m2)
            | (None, m2) \<Rightarrow> (None, reinject, m2))
      else (Some skb, reinject, m1))"
  obtain skb2 reinject2 m2 where c: "mid = (skb2, reinject2, m2)"
    by (cases mid)
  have m2: "m2 = m1 \<or> m2 = snd (mptcp_rcv_buf_optimization k m1 i True)"
    using c by (auto simp: mid_def split: if_splits option.splits prod.splits)
  have l2: "length (subflows m2) = length (subflows m)"
    using m2 fr(1) rcv_buf_opt_length [of k m1 i True] by auto
  have c2: "current_mss (subflows m2 ! i) = current_mss (subflows m ! i)"
    using m2 fr(2) [OF il] rcv_buf_opt_frame [OF i1 i1, of k True] by auto
  have u2: "mptcp_is_def_unavailable (subflows m2 ! i) = mptcp_is_def_unavailable (subflows m ! i)"
    using m2 fr(3) [OF il] rcv_buf_opt_frame [OF i1 i1, of k True] by auto
  have r: "mptcp_next_segment k m =
     (case skb2 of
        None \<Rightarrow> \<lparr>ns_skb = None, ns_reinject = reinject2, ns_subsk = Some i,
                  ns_limit = 0, ns_subflows = subflows m2\<rparr>
      | Some s2 \<Rightarrow>
          (case next_segment_limit k (subflows m2 ! i) s2 mss_now of
             None \<Rightarrow> \<lparr>ns_skb = None, ns_reinject = reinject2, ns_subsk = Some i,
                       ns_limit = 0, ns_subflows = subflows m2\<rparr>
           | Some limit \<Rightarrow> \<lparr>ns_skb = Some s2, ns_reinject = reinject2,
                            ns_subsk = Some i, ns_limit = limit,
                            ns_subflows = subflows m2\<rparr>))"
    using c unfolding mid_def skb_def mss_now_def
    by (simp add: mptcp_next_segment_def a s0 b sk Let_def split: option.splits)
  have s: "ns_subflows (mptcp_next_segment k m) = subflows m2"
    by (simp add: r split: option.splits)
  have lim: "next_segment_limit k (subflows m2 ! i) K mss_now = Some (ns_limit (mptcp_next_segment k m))"
    if "ns_skb (mptcp_next_segment k m) = Some K" for K
    using that by (auto simp: r split: option.splits)
  show ?thesis
    using il d1 fr(3) [OF il] l2 c2 u2 lim by (simp add: s mss)
qed





text \<open>
  C8. A subflow that is definitively unavailable is never returned: not by a selector
  pass, not by the data-fin walk, not by \<open>get_available_subflow\<close>, and not as the
  subflow of \<open>mptcp_next_segment\<close>.
\<close>

theorem def_unavailable_never_returned:
  assumes "mptcp_is_def_unavailable (subflows m ! i)"
  shows "fst (get_subflow_from_selectors k (subflows m) skb selector z) \<noteq> Some i
     \<and> dfin_walk k (subflows m) (dfin_path_index m) skb z [0..<length (subflows m)] \<noteq> Some i
     \<and> fst (get_available_subflow k m skb z) \<noteq> Some i
     \<and> ns_subsk (mptcp_next_segment k m) \<noteq> Some i"
proof -
  have "fst (get_subflow_from_selectors k (subflows m) skb selector z) \<noteq> Some i"
  proof
    assume "fst (get_subflow_from_selectors k (subflows m) skb selector z) = Some i"
    then obtain force where
      "get_subflow_from_selectors k (subflows m) skb selector z = (Some i, force)"
      by (cases "get_subflow_from_selectors k (subflows m) skb selector z") simp
    from selectors_result [OF this] assms show False
      by (simp add: sel_candidate_def)
  qed
  moreover have "dfin_walk k (subflows m) (dfin_path_index m) skb z [0..<length (subflows m)] \<noteq> Some i"
    using dfin_walk_Some [of k "subflows m" "dfin_path_index m" skb z "[0..<length (subflows m)]" i] assms
    by (auto simp: mptcp_is_available_def)
  moreover have "fst (get_available_subflow k m skb z) \<noteq> Some i"
    using get_available_subflow_Some [of k m skb z i] assms by auto
  moreover have "ns_subsk (mptcp_next_segment k m) \<noteq> Some i"
    using next_segment_subsk [of k m i] assms by auto
  ultimately show ?thesis by simp
qed

text \<open>
  C8 on a connection whose first subflow is potentially failed: an ordinary segment
  and a data-fin on that subflow's path both go to the second subflow.
\<close>

theorem def_unavailable_never_returned_witness:
  "mptcp_is_def_unavailable (ex_sub\<lparr>pf := True\<rparr>)
   \<and> fst (get_available_subflow ex_kernel
             (ex_cb_send\<lparr>subflows := [ex_sub\<lparr>pf := True\<rparr>, ex_sub_B]\<rparr>) (Some ex_seg) False)
       = Some 1
   \<and> fst (get_available_subflow ex_kernel
             (ex_cb_send\<lparr>subflows := [ex_sub\<lparr>pf := True\<rparr>, ex_sub_B],
                          rcv_shutdown := True, dfin_path_index := 1\<rparr>)
             (Some (ex_seg\<lparr>is_data_fin := True\<rparr>)) False)
       = Some 1
   \<and> ns_subsk (mptcp_next_segment ex_kernel
                  (ex_cb_send\<lparr>subflows := [ex_sub\<lparr>pf := True\<rparr>, ex_sub_B]\<rparr>))
       = Some 1"
  using def_unavailable_never_returned
          [of "ex_cb_send\<lparr>subflows := [ex_sub\<lparr>pf := True\<rparr>, ex_sub_B]\<rparr>" 0 ex_kernel
              "Some ex_seg" subflow_is_active False]
        def_unavailable_never_returned
          [of "ex_cb_send\<lparr>subflows := [ex_sub\<lparr>pf := True\<rparr>, ex_sub_B],
                          rcv_shutdown := True, dfin_path_index := 1\<rparr>" 0 ex_kernel
              "Some (ex_seg\<lparr>is_data_fin := True\<rparr>)" subflow_is_active False]
  by (simp add: ex_eval)


subsection \<open>The registry\<close>

lemma mptcp_sched_find_None: "mptcp_sched_find nm lst = None \<longleftrightarrow> nm \<notin> name ` set lst"
  by (auto simp: mptcp_sched_find_def find_None_iff)

lemma mptcp_sched_find_Some: "mptcp_sched_find nm lst = Some e \<Longrightarrow> e \<in> set lst \<and> name e = nm"
  by (auto simp: mptcp_sched_find_def find_Some_iff)

text \<open>
  C9. \<open>mptcp_register_scheduler\<close> fails with \<open>EINVAL\<close> when \<open>get_subflow\<close> or
  \<open>next_segment\<close> is missing, and with \<open>EEXIST\<close> when an entry of the same name is
  registered, leaving the registry as it was in both cases; otherwise it succeeds and
  the new entry is appended at the tail.
\<close>

theorem register_scheduler_results:
  "(get_subflow ops = None \<or> next_segment ops = None \<longrightarrow>
      mptcp_register_scheduler ops lst = (Inl EINVAL, lst))
   \<and> (get_subflow ops \<noteq> None \<and> next_segment ops \<noteq> None \<and> name ops \<in> name ` set lst \<longrightarrow>
      mptcp_register_scheduler ops lst = (Inl EEXIST, lst))
   \<and> (get_subflow ops \<noteq> None \<and> next_segment ops \<noteq> None \<and> name ops \<notin> name ` set lst \<longrightarrow>
      mptcp_register_scheduler ops lst = (Inr (), lst @ [ops]))"
proof -
  have "mptcp_sched_find (name ops) lst \<noteq> None" if "name ops \<in> name ` set lst"
    using that by (simp add: mptcp_sched_find_None)
  moreover have "mptcp_sched_find (name ops) lst = None" if "name ops \<notin> name ` set lst"
    using that by (simp add: mptcp_sched_find_None)
  ultimately show ?thesis
    by (auto simp: mptcp_register_scheduler_def split: option.splits)
qed

text \<open>The three outcomes of C9 on a registry that holds the scheduler ``default''.\<close>

theorem register_scheduler_results_witness:
  "mptcp_register_scheduler ((ex_ops ''x'')\<lparr>next_segment := None\<rparr>) [ex_ops ''default'']
     = (Inl EINVAL, [ex_ops ''default''])
   \<and> mptcp_register_scheduler (ex_ops ''default'') [ex_ops ''default'']
     = (Inl EEXIST, [ex_ops ''default''])
   \<and> mptcp_register_scheduler (ex_ops ''x'') [ex_ops ''default'']
     = (Inr (), [ex_ops ''default'', ex_ops ''x''])"
  using register_scheduler_results [of "(ex_ops ''x'')\<lparr>next_segment := None\<rparr>" "[ex_ops ''default'']"]
        register_scheduler_results [of "ex_ops ''default''" "[ex_ops ''default'']"]
        register_scheduler_results [of "ex_ops ''x''" "[ex_ops ''default'']"]
  by (simp add: ex_ops_def)

lemma autoload_None:
  "fst (mptcp_sched_find_autoload env nm lst) = None \<longleftrightarrow>
     nm \<notin> name ` set lst \<and>
     (config_modules env \<and> capable_net_admin env \<longrightarrow>
        nm \<notin> name ` set (request_module env (''mptcp_'' @ nm) lst))"
  by (auto simp: mptcp_sched_find_autoload_def Let_def mptcp_sched_find_None [symmetric]
           split: option.splits)

lemma autoload_Some:
  "mptcp_sched_find_autoload env nm lst = (Some e, lst') \<Longrightarrow> e \<in> set lst' \<and> name e = nm"
  by (auto simp: mptcp_sched_find_autoload_def Let_def dest: mptcp_sched_find_Some
           split: option.splits if_splits)

text \<open>
  C10. When the name matches no registered scheduler, before and after the autoload
  attempt, \<open>mptcp_set_scheduler\<close> returns \<open>ENOENT\<close> whatever the caller's privilege;
  \<open>ENOENT\<close> is returned exactly when the lookup with autoload finds nothing. \<open>EPERM\<close>
  is returned only when the named scheduler is registered and the caller lacks
  \<open>CAP_NET_ADMIN\<close> in the socket's namespace. The stored scheduler name and the
  setsockopt flag are left as they were unless the call succeeds, and on success they
  are the given name and 1.
\<close>

theorem set_scheduler_results:
  "(nm \<notin> name ` set lst \<and> nm \<notin> name ` set (request_module env (''mptcp_'' @ nm) lst) \<longrightarrow>
      fst (mptcp_set_scheduler env sk nm lst) = Inl ENOENT)
   \<and> (fst (mptcp_set_scheduler env sk nm lst) = Inl ENOENT \<longleftrightarrow>
        fst (mptcp_sched_find_autoload env nm lst) = None)
   \<and> (fst (mptcp_set_scheduler env sk nm lst) = Inl EPERM \<longrightarrow>
        nm \<in> name ` set (snd (snd (mptcp_set_scheduler env sk nm lst)))
        \<and> \<not> ns_capable_net_admin env)
   \<and> (fst (mptcp_set_scheduler env sk nm lst) = Inl EPERM \<longleftrightarrow>
        fst (mptcp_sched_find_autoload env nm lst) \<noteq> None \<and> \<not> ns_capable_net_admin env)
   \<and> (fst (mptcp_set_scheduler env sk nm lst) \<noteq> Inr () \<longrightarrow>
        fst (snd (mptcp_set_scheduler env sk nm lst)) = sk)
   \<and> (fst (mptcp_set_scheduler env sk nm lst) = Inr () \<longrightarrow>
        fst (snd (mptcp_set_scheduler env sk nm lst))
          = sk\<lparr>mptcp_sched_name := nm, mptcp_sched_setsockopt := True\<rparr>)"
proof -
  obtain r lst' where a: "mptcp_sched_find_autoload env nm lst = (r, lst')"
    by (cases "mptcp_sched_find_autoload env nm lst")
  have n: "r = None" if "nm \<notin> name ` set lst"
      "nm \<notin> name ` set (request_module env (''mptcp_'' @ nm) lst)"
    using autoload_None [of env nm lst] that a by simp
  have s: "nm \<in> name ` set lst'" if "r = Some e" for e
    using autoload_Some [of env nm lst e lst'] a that by auto
  show ?thesis
    using n s by (cases r) (auto simp: mptcp_set_scheduler_def a)
qed

text \<open>
  C10 on a registry that holds ``default'': an unknown name with and without
  privilege, a known name without privilege, and a privileged caller whose scheduler
  is loaded by \<open>request_module\<close>.
\<close>

theorem set_scheduler_results_witness:
  "fst (mptcp_set_scheduler (ex_env True) ex_choice ''nosuch'' [ex_ops ''default'']) = Inl ENOENT
   \<and> fst (mptcp_set_scheduler (ex_env False) ex_choice ''nosuch'' [ex_ops ''default'']) = Inl ENOENT
   \<and> mptcp_set_scheduler (ex_env False) ex_choice ''default'' [ex_ops ''default'']
       = (Inl EPERM, ex_choice, [ex_ops ''default''])
   \<and> mptcp_set_scheduler (ex_env True) ex_choice ''redundant'' [ex_ops ''default'']
       = (Inr (), \<lparr>mptcp_sched_name = ''redundant'', mptcp_sched_setsockopt = True\<rparr>,
          [ex_ops ''default'', ex_ops ''redundant''])"
  using set_scheduler_results [of "''nosuch''" "[ex_ops ''default'']" "ex_env True" ex_choice]
        set_scheduler_results [of "''nosuch''" "[ex_ops ''default'']" "ex_env False" ex_choice]
        set_scheduler_results [of "''default''" "[ex_ops ''default'']" "ex_env False" ex_choice]
        set_scheduler_results [of "''redundant''" "[ex_ops ''default'']" "ex_env True" ex_choice]
  by (simp add: ex_env_def ex_ops_def ex_choice_def mptcp_set_scheduler_def
        mptcp_sched_find_autoload_def mptcp_sched_find_def)

end
